theory Spec2Isabelle
  imports Complex_Main "HOL-Library.Char_ord" "HOL-Library.List_Lexorder" "HOL-Library.Multiset"
begin

section \<open>Python values and library functions used by the dataset module\<close>

text \<open>
  The module under study is \<^verbatim>\<open>src/data/a2d2_dataset.py\<close> (class \<^verbatim>\<open>A2D2Dataset\<close>).
  Paths and names are Python \<^verbatim>\<open>str\<close> values restricted to single-byte characters.
  Every exception the module can raise is a value of \<open>error\<close>; a function that may
  raise returns \<open>error + 'a\<close> with \<open>Inl\<close> for the exception.

  The specification names the failure of an invalid \<^verbatim>\<open>split\<close> ``ConfigError'' and the
  failure of the retry loop ``ExhaustedRetriesError''; the module raises Python's
  \<^verbatim>\<open>ValueError\<close> and \<^verbatim>\<open>RuntimeError\<close> at those two places, and the model keeps the
  names of the module.
\<close>

type_synonym path = string

datatype error =
    IOError path
  | ConfigError string
  | ValueError string
  | RuntimeError string
  | IndexError
  | ZeroDivisionError
  | CvError

subsection \<open>Strings\<close>

text \<open>\<^verbatim>\<open>s.split(c)\<close> for a one-character separator: never the empty list.\<close>

fun split_sep :: "char \<Rightarrow> string \<Rightarrow> string list" where
  "split_sep c [] = [[]]"
| "split_sep c (x # xs) =
     (if x = c then [] # split_sep c xs
      else (case split_sep c xs of [] \<Rightarrow> [[x]] | w # ws \<Rightarrow> (x # w) # ws))"

text \<open>\<^verbatim>\<open>s.replace(old, new)\<close>: every non-overlapping occurrence, left to right.\<close>

function str_replace :: "string \<Rightarrow> string \<Rightarrow> string \<Rightarrow> string" where
  "str_replace old new s =
     (if old = [] then new @ concat (map (\<lambda>c. c # new) s)
      else if s = [] then []
      else if take (length old) s = old
        then new @ str_replace old new (drop (length old) s)
      else hd s # str_replace old new (tl s))"
  by pat_completeness auto
termination
  by (relation "measure (\<lambda>(old, new, s). length s)") auto

text \<open>Decimal rendering of an integer, as an f-string prints it.\<close>

definition digit_char :: "nat \<Rightarrow> char" where
  "digit_char d = char_of (48 + d)"

function str_nat :: "nat \<Rightarrow> string" where
  "str_nat n = (if n < 10 then [digit_char n] else str_nat (n div 10) @ [digit_char (n mod 10)])"
  by pat_completeness auto
termination
  by (relation "measure id") auto

definition str_int :: "int \<Rightarrow> string" where
  "str_int i = (if i < 0 then CHR ''-'' # str_nat (nat (- i)) else str_nat (nat i))"

text \<open>\<^verbatim>\<open>os.path.join\<close> on a POSIX system.\<close>

definition join2 :: "path \<Rightarrow> path \<Rightarrow> path" where
  "join2 a b =
     (if b \<noteq> [] \<and> hd b = CHR ''/'' then b
      else if a = [] \<or> last a = CHR ''/'' then a @ b
      else a @ ''/'' @ b)"

definition path_join :: "path \<Rightarrow> path list \<Rightarrow> path" where
  "path_join a ps = foldl join2 a ps"

subsection \<open>Lists and numbers\<close>

text \<open>\<^verbatim>\<open>xs[i]\<close>: a negative index counts from the end, out of range raises.\<close>

definition py_getitem :: "'a list \<Rightarrow> int \<Rightarrow> error + 'a" where
  "py_getitem xs i =
     (if 0 \<le> i \<and> i < int (length xs) then Inr (xs ! nat i)
      else if i < 0 \<and> - int (length xs) \<le> i then Inr (xs ! nat (int (length xs) + i))
      else Inl IndexError)"

text \<open>\<^verbatim>\<open>xs[:k]\<close> and \<^verbatim>\<open>xs[k:]\<close>: a negative bound counts from the end.\<close>

definition slice_to :: "'a list \<Rightarrow> int \<Rightarrow> 'a list" where
  "slice_to xs k = (if k < 0 then take (nat (int (length xs) + k)) xs else take (nat k) xs)"

definition slice_from :: "'a list \<Rightarrow> int \<Rightarrow> 'a list" where
  "slice_from xs k = (if k < 0 then drop (nat (int (length xs) + k)) xs else drop (nat k) xs)"

text \<open>
  \<^verbatim>\<open>int(x)\<close> of a float truncates toward zero. Python's floats are modelled as exact
  real numbers: the rounding of a binary floating-point product is not represented.
\<close>

definition py_int :: "real \<Rightarrow> int" where
  "py_int x = (if 0 \<le> x then \<lfloor>x\<rfloor> else \<lceil>x\<rceil>)"

section \<open>Data model\<close>

text \<open>
  A decoded image is its two dimensions and its pixels (three 8-bit channels each). The
  arrays stored in one scan file are the point coordinates (one row of three numbers per
  point, the layout of the A2D2 scan files), the reflectance of each point and the row and
  the column of the pixel each point projects to.
\<close>

type_synonym pixel = "nat \<times> nat \<times> nat"

record image =
  height :: nat
  width :: nat
  pixel_at :: "nat \<Rightarrow> nat \<Rightarrow> pixel"

record tensor =
  channels :: nat
  rows :: nat
  cols :: nat
  value_at :: "nat \<Rightarrow> nat \<Rightarrow> nat \<Rightarrow> real"

record lidar_data =
  points :: "(real \<times> real \<times> real) list"
  reflectance :: "real list"
  row :: "real list"
  col :: "real list"

record calib =
  intrinsic :: "real list list"
  distortion :: "real list"
  lens :: string

type_synonym config = "string \<rightharpoonup> calib"

text \<open>
  What lies outside the module: the file system (\<^verbatim>\<open>glob.glob\<close>, the calibration file, the
  two pickled exclusion lists, \<^verbatim>\<open>np.load\<close>, \<^verbatim>\<open>cv2.imread\<close>, which returns \<^verbatim>\<open>None\<close> for
  an unreadable file), the numeric kernels whose values the module does not inspect
  (the undistortion remapping, the interpolation of \<^verbatim>\<open>cv2.resize\<close>, the composed image
  transform with its use of the random generator, the cast to 32-bit floats).
\<close>

record env =
  glob :: "string \<Rightarrow> path list"
  read_config :: "path \<Rightarrow> error + config"
  pickle_load :: "path \<Rightarrow> error + path list"
  np_load :: "path \<Rightarrow> error + lidar_data"
  imread :: "path \<Rightarrow> image option"
  remap :: "calib \<Rightarrow> image \<Rightarrow> image"
  interp :: "image \<Rightarrow> nat \<Rightarrow> nat \<Rightarrow> nat \<Rightarrow> nat \<Rightarrow> pixel"
  transform_value :: "bool \<Rightarrow> image \<Rightarrow> (nat \<Rightarrow> nat) \<Rightarrow> nat \<Rightarrow> nat \<Rightarrow> nat \<Rightarrow> real"
  transform_rng :: "bool \<Rightarrow> image \<Rightarrow> (nat \<Rightarrow> nat) \<Rightarrow> nat \<Rightarrow> nat"
  float32 :: "real \<Rightarrow> real"

text \<open>
  What changes while samples are retrieved: the stream of numbers the random generator
  will produce next, and the files opened so far, oldest first.
\<close>

record world =
  rng :: "nat \<Rightarrow> nat"
  opened :: "path list"

record dataset =
  root_path :: path
  crop_size :: "(nat \<times> nat) option"
  config :: config
  missing_keys_files :: "path list"
  missing_point_clouds :: "path list"
  augment :: bool
  val_ratio :: real
  train_data_pairs :: "(path \<times> path) list"
  val_data_pairs :: "(path \<times> path) list"
  data_pairs :: "(path \<times> path) list"

record init_args =
  arg_root_path :: path
  arg_config_path :: path
  arg_missing_keys_file :: path
  arg_missing_point_clouds_file :: path
  arg_crop_size :: "(nat \<times> nat) option"
  arg_val_ratio :: real
  arg_split :: string
  arg_augment :: bool

section \<open>Construction: discovery, exclusion, grouping and the train/val split\<close>

text \<open>
  Modelled from the spec: \<^verbatim>\<open>load_config\<close> of \<^verbatim>\<open>a2d2_utils\<close>, which is not among the
  sources. It loads the calibration of every camera view from the configuration source and
  fails when the source is unreadable or malformed.
\<close>

definition load_config :: "env \<Rightarrow> path \<Rightarrow> error + config" where
  "load_config e config_path = read_config e config_path"

definition load_missing_keys_file :: "env \<Rightarrow> path \<Rightarrow> error + path list" where
  "load_missing_keys_file e missing_keys_file = pickle_load e missing_keys_file"

definition load_missing_point_clouds_file :: "env \<Rightarrow> path \<Rightarrow> error + path list" where
  "load_missing_point_clouds_file e missing_point_clouds_file =
     pickle_load e missing_point_clouds_file"

text \<open>
  \<^verbatim>\<open>scene_dict\<close> is a dictionary in insertion order: an association list whose keys
  appear in the order of their first insertion. \<open>scene_append\<close> is
  \<^verbatim>\<open>if seq_name not in scene_dict: scene_dict[seq_name] = []\<close> followed by
  \<^verbatim>\<open>scene_dict[seq_name].append(lidar_path)\<close>.
\<close>

fun scene_append :: "(string \<times> path list) list \<Rightarrow> string \<Rightarrow> path \<Rightarrow> (string \<times> path list) list" where
  "scene_append [] s p = [(s, [p])]"
| "scene_append ((k, v) # d) s p =
     (if k = s then (k, v @ [p]) # d else (k, v) # scene_append d s p)"

text \<open>The first loop of \<^verbatim>\<open>_create_data_pairs\<close>; \<^verbatim>\<open>split("/")[-4]\<close> may raise.\<close>

fun group_scenes ::
  "path list \<Rightarrow> path list \<Rightarrow> path list \<Rightarrow> (string \<times> path list) list
    \<Rightarrow> error + (string \<times> path list) list" where
  "group_scenes mk mp [] scene_dict = Inr scene_dict"
| "group_scenes mk mp (lidar_path # rest) scene_dict =
     (if lidar_path \<in> set mk \<or> lidar_path \<in> set mp then group_scenes mk mp rest scene_dict
      else (case py_getitem (split_sep CHR ''/'' lidar_path) (- 4) of
              Inl e \<Rightarrow> Inl e
            | Inr seq_name \<Rightarrow> group_scenes mk mp rest (scene_append scene_dict seq_name lidar_path)))"

definition image_path_of :: "path \<Rightarrow> string \<Rightarrow> path \<Rightarrow> path" where
  "image_path_of root_dir seq_name lidar_path =
     (let image_file_name =
            str_replace ''.npz'' ''.png''
              (str_replace ''lidar'' ''camera'' (last (split_sep CHR ''/'' lidar_path)))
      in path_join root_dir [seq_name, ''camera/cam_front_center'', image_file_name])"

definition split_scene ::
  "real \<Rightarrow> path \<Rightarrow> string \<times> path list \<Rightarrow> (path \<times> path) list \<times> (path \<times> path) list" where
  "split_scene vr root_dir item =
     (let seq_name = fst item; lidar_paths = snd item;
          num_samples = int (length lidar_paths);
          num_val_samples = py_int (real_of_int num_samples * vr);
          num_train_samples = num_samples - num_val_samples;
          train_lidar_paths = slice_to lidar_paths num_train_samples;
          val_lidar_paths = slice_from lidar_paths num_train_samples
      in (map (\<lambda>lidar_path. (lidar_path, image_path_of root_dir seq_name lidar_path)) train_lidar_paths,
          map (\<lambda>lidar_path. (lidar_path, image_path_of root_dir seq_name lidar_path)) val_lidar_paths))"

text \<open>The second loop, with the two result lists as accumulators.\<close>

fun split_scenes ::
  "real \<Rightarrow> path \<Rightarrow> (string \<times> path list) list
    \<Rightarrow> (path \<times> path) list \<times> (path \<times> path) list
    \<Rightarrow> (path \<times> path) list \<times> (path \<times> path) list" where
  "split_scenes vr root_dir [] acc = acc"
| "split_scenes vr root_dir (item # scene_dict) acc =
     split_scenes vr root_dir scene_dict
       (fst acc @ fst (split_scene vr root_dir item), snd acc @ snd (split_scene vr root_dir item))"

definition create_data_pairs ::
  "env \<Rightarrow> path \<Rightarrow> path list \<Rightarrow> path list \<Rightarrow> real
    \<Rightarrow> error + ((path \<times> path) list \<times> (path \<times> path) list)" where
  "create_data_pairs e root_dir mk mp vr =
     (let lidar_paths = sort (glob e (path_join root_dir [''*/lidar/cam_front_center/*.npz'']))
      in case group_scenes mk mp lidar_paths [] of
           Inl err \<Rightarrow> Inl err
         | Inr scene_dict \<Rightarrow> Inr (split_scenes vr root_dir scene_dict ([], [])))"

text \<open>
  The rendering of the clamped ratio in the warning: the clamped value is the integer
  \<^verbatim>\<open>0\<close> or the float \<^verbatim>\<open>0.5\<close>, and no other value reaches the message.
\<close>

definition str_ratio :: "real \<Rightarrow> string" where
  "str_ratio v = (if v = 0 then ''0'' else ''0.5'')"

definition clamp_val_ratio :: "real \<Rightarrow> string list \<times> real" where
  "clamp_val_ratio v =
     (if v < 0 \<or> v > 1 / 2
      then (let v' = max 0 (min v (1 / 2))
            in ([''Warning: val_ratio should be between 0 and 0.5. Setting it to ''
                   @ str_ratio v' @ ''.''], v'))
      else ([], v))"

text \<open>
  \<^verbatim>\<open>__init__\<close>: the lines printed, and the dataset or the exception. The composed image
  transform is determined by \<^verbatim>\<open>augment\<close> and is kept as that flag.
\<close>

definition init :: "env \<Rightarrow> init_args \<Rightarrow> string list \<times> (error + dataset)" where
  "init e a =
     (case load_config e (arg_config_path a) of
        Inl err \<Rightarrow> ([], Inl err)
      | Inr cfg \<Rightarrow>
     (case load_missing_keys_file e (arg_missing_keys_file a) of
        Inl err \<Rightarrow> ([], Inl err)
      | Inr mk \<Rightarrow>
     (case load_missing_point_clouds_file e (arg_missing_point_clouds_file a) of
        Inl err \<Rightarrow> ([], Inl err)
      | Inr mp \<Rightarrow>
     (let printed = fst (clamp_val_ratio (arg_val_ratio a));
          vr = snd (clamp_val_ratio (arg_val_ratio a))
      in case create_data_pairs e (arg_root_path a) mk mp vr of
           Inl err \<Rightarrow> (printed, Inl err)
         | Inr pairs \<Rightarrow>
             (let self = \<lparr> root_path = arg_root_path a, crop_size = arg_crop_size a,
                           config = cfg, missing_keys_files = mk, missing_point_clouds = mp,
                           augment = arg_augment a, val_ratio = vr,
                           train_data_pairs = fst pairs, val_data_pairs = snd pairs,
                           data_pairs = [] \<rparr>
              in if arg_split a = ''train''
                   then (printed, Inr (self\<lparr>data_pairs := train_data_pairs self\<rparr>))
                 else if arg_split a = ''val''
                   then (printed, Inr (self\<lparr>data_pairs := val_data_pairs self\<rparr>))
                 else (printed, Inl (ValueError (''Invalid split value: '' @ arg_split a
                                       @ ''. Use 'train' or 'val'.''))))))))"

section \<open>Sample retrieval\<close>

subsection \<open>Library calls\<close>

text \<open>A draw of the random generator: an integer between \<open>0\<close> and \<open>m\<close>, both included.\<close>

definition draw :: "nat \<Rightarrow> world \<Rightarrow> nat \<times> world" where
  "draw m w = (rng w 0 mod (m + 1), w\<lparr>rng := \<lambda>i. rng w (Suc i)\<rparr>)"

text \<open>
  \<^verbatim>\<open>np.hstack\<close> of the coordinates and the three columns made by \<^verbatim>\<open>reshape(-1, 1)\<close>: one
  row of six numbers per point, and an exception when the arrays differ in length.
\<close>

definition hstack :: "lidar_data \<Rightarrow> error + real list list" where
  "hstack ld =
     (let n = length (points ld)
      in if length (reflectance ld) = n \<and> length (row ld) = n \<and> length (col ld) = n
         then Inr (map (\<lambda>(xyz, r, rw, c). [fst xyz, fst (snd xyz), snd (snd xyz), r, rw, c])
                     (zip (points ld) (zip (reflectance ld) (zip (row ld) (col ld)))))
         else Inl (ValueError ''all the input array dimensions except for the concatenation axis must match exactly''))"

text \<open>\<^verbatim>\<open>cv2.cvtColor(image, cv2.COLOR_BGR2RGB)\<close>; it raises on \<^verbatim>\<open>None\<close>.\<close>

definition cvtColor_BGR2RGB :: "image option \<Rightarrow> error + image" where
  "cvtColor_BGR2RGB im =
     (case im of
        None \<Rightarrow> Inl CvError
      | Some img \<Rightarrow>
          Inr (img\<lparr>pixel_at := \<lambda>i j. (case pixel_at img i j of (b, g, r) \<Rightarrow> (r, g, b))\<rparr>))"

text \<open>
  \<^verbatim>\<open>cv2.resize(image, (w, h))\<close>: an image of exactly \<open>h\<close> rows and \<open>w\<close> columns, whose
  pixels the interpolation decides; it raises on an image without pixels.
\<close>

definition cv2_resize :: "env \<Rightarrow> image \<Rightarrow> nat \<times> nat \<Rightarrow> error + image" where
  "cv2_resize e img dsize =
     (if height img = 0 \<or> width img = 0 then Inl CvError
      else Inr \<lparr> height = snd dsize, width = fst dsize,
                 pixel_at = interp e img (fst dsize) (snd dsize) \<rparr>)"

text \<open>
  The composed transform (the optional augmentations, \<^verbatim>\<open>Normalize\<close>, \<^verbatim>\<open>ToTensorV2\<close>): a
  tensor of three channels over the rows and columns of its input. The augmentations may
  draw from the random generator.
\<close>

definition image_transform :: "env \<Rightarrow> bool \<Rightarrow> image \<Rightarrow> world \<Rightarrow> tensor \<times> world" where
  "image_transform e aug img w =
     (\<lparr> channels = 3, rows = height img, cols = width img,
        value_at = transform_value e aug img (rng w) \<rparr>,
      w\<lparr>rng := transform_rng e aug img (rng w)\<rparr>)"

subsection \<open>The two functions of the utility module\<close>

text \<open>
  Modelled from the spec: \<^verbatim>\<open>undistort_image\<close> of \<^verbatim>\<open>a2d2_utils\<close>, which is not among
  the sources. It remaps the image with the stored parameters of the named view and fails
  when the view is absent from the loaded calibration.
\<close>

definition undistort_image :: "env \<Rightarrow> image \<Rightarrow> string \<Rightarrow> config \<Rightarrow> error + image" where
  "undistort_image e img view_name cfg =
     (case cfg view_name of
        None \<Rightarrow> Inl (ConfigError view_name)
      | Some c \<Rightarrow> Inr (remap e c img))"

text \<open>
  Modelled from the spec: the crop of the image to the window, a part of \<^verbatim>\<open>random_crop\<close>
  of \<^verbatim>\<open>a2d2_utils\<close>, which is not among the sources. A window that reaches beyond the
  image is clamped to the image bounds.
\<close>

definition crop_image :: "image \<Rightarrow> nat \<Rightarrow> nat \<Rightarrow> nat \<Rightarrow> nat \<Rightarrow> image" where
  "crop_image img win_top win_left h w =
     \<lparr> height = min h (height img - win_top), width = min w (width img - win_left),
       pixel_at = \<lambda>i j. pixel_at img (win_top + i) (win_left + j) \<rparr>"

text \<open>
  Modelled from the spec: the containment test of \<^verbatim>\<open>random_crop\<close>. A point is retained
  when its pixel coordinate \<open>(row, col)\<close>, columns 4 and 5 of the array the dataset
  passes, satisfies \<open>top \<le> row < top + target_h\<close> and \<open>left \<le> col < left + target_w\<close>.
\<close>

definition in_window :: "nat \<Rightarrow> nat \<Rightarrow> nat \<Rightarrow> nat \<Rightarrow> real list \<Rightarrow> bool" where
  "in_window win_top win_left target_h target_w p =
     (real win_top \<le> p ! 4 \<and> p ! 4 < real (win_top + target_h)
      \<and> real win_left \<le> p ! 5 \<and> p ! 5 < real (win_left + target_w))"

text \<open>
  Modelled from the spec: the translation of \<^verbatim>\<open>random_crop\<close>. The pixel coordinate of a
  retained point is re-expressed relative to the window's origin; the geometry columns
  are untouched.
\<close>

definition rebase :: "nat \<Rightarrow> nat \<Rightarrow> real list \<Rightarrow> real list" where
  "rebase win_top win_left p = p[4 := p ! 4 - real win_top, 5 := p ! 5 - real win_left]"

text \<open>
  Modelled from the spec: \<^verbatim>\<open>random_crop\<close> of \<^verbatim>\<open>a2d2_utils\<close>, which is not among the
  sources. The window's origin is drawn within
  \<open>[0, image_height - target_h] \<times> [0, image_width - target_w]\<close> (a single position when
  the image is smaller than the target); the image is cropped to the window and the points
  are filtered and translated.
\<close>

definition random_crop ::
  "image \<Rightarrow> real list list \<Rightarrow> nat \<times> nat \<Rightarrow> world \<Rightarrow> (image \<times> real list list) \<times> world" where
  "random_crop img point_cloud target_size w =
     (let target_h = fst target_size; target_w = snd target_size;
          win_top = fst (draw (height img - target_h) w);
          w1 = snd (draw (height img - target_h) w);
          win_left = fst (draw (width img - target_w) w1);
          w2 = snd (draw (width img - target_w) w1)
      in ((crop_image img win_top win_left target_h target_w,
           map (rebase win_top win_left) (filter (in_window win_top win_left target_h target_w) point_cloud)),
          w2))"

subsection \<open>One decode, undistort and crop cycle\<close>

type_synonym sample = "tensor \<times> real list list"

definition crop_step ::
  "dataset \<Rightarrow> image \<Rightarrow> real list list \<Rightarrow> world \<Rightarrow> (image \<times> real list list) \<times> world" where
  "crop_step self undistorted_image point_cloud w =
     (case crop_size self of
        None \<Rightarrow> ((undistorted_image, point_cloud), w)
      | Some cs \<Rightarrow> random_crop undistorted_image point_cloud cs w)"

definition getitem_unsafe :: "env \<Rightarrow> dataset \<Rightarrow> int \<Rightarrow> world \<Rightarrow> (error + sample) \<times> world" where
  "getitem_unsafe e self idx w =
     (case py_getitem (data_pairs self) idx of
        Inl err \<Rightarrow> (Inl err, w)
      | Inr pair \<Rightarrow>
     (let lidar_path = fst pair; image_path = snd pair;
          w1 = w\<lparr>opened := opened w @ [lidar_path]\<rparr>
      in case np_load e lidar_path of
        Inl err \<Rightarrow> (Inl err, w1)
      | Inr lidar_data \<Rightarrow>
     (case hstack lidar_data of
        Inl err \<Rightarrow> (Inl err, w1)
      | Inr point_cloud \<Rightarrow>
     (let w2 = w1\<lparr>opened := opened w1 @ [image_path]\<rparr>
      in case cvtColor_BGR2RGB (imread e image_path) of
        Inl err \<Rightarrow> (Inl err, w2)
      | Inr rgb_image \<Rightarrow>
     (case undistort_image e rgb_image ''front_center'' (config self) of
        Inl err \<Rightarrow> (Inl err, w2)
      | Inr undistorted_image \<Rightarrow>
     (let cropped = crop_step self undistorted_image point_cloud w2;
          w3 = snd cropped
      in case cv2_resize e (fst (fst cropped)) (224, 224) of
        Inl err \<Rightarrow> (Inl err, w3)
      | Inr resized \<Rightarrow>
     (let transformed = image_transform e (augment self) resized w3
      in (Inr (fst transformed, map (\<lambda>p. map (float32 e) (take 4 p)) (snd (fst cropped))),
          snd transformed))))))))"

subsection \<open>The retry loop\<close>

definition max_attempts :: nat where
  "max_attempts = 100"

definition exhausted_message :: "int \<Rightarrow> string" where
  "exhausted_message idx =
     ''Could not find a valid sample after '' @ str_nat max_attempts
       @ '' attempts starting from index '' @ str_int idx"

text \<open>
  The \<^verbatim>\<open>while\<close> loop of \<^verbatim>\<open>__getitem__\<close> with its two variables \<^verbatim>\<open>attempt\<close> and
  \<^verbatim>\<open>idx\<close>; the message of the final \<^verbatim>\<open>raise\<close> is built from \<^verbatim>\<open>idx\<close> as the loop
  win_left it.
\<close>

function getitem_loop ::
  "env \<Rightarrow> dataset \<Rightarrow> nat \<Rightarrow> int \<Rightarrow> world \<Rightarrow> (error + sample) \<times> world" where
  "getitem_loop e self attempt idx w =
     (if attempt < max_attempts then
        (case fst (getitem_unsafe e self idx w) of
           Inl err \<Rightarrow> (Inl err, snd (getitem_unsafe e self idx w))
         | Inr smp \<Rightarrow>
             if length (snd smp) > 0 then (Inr smp, snd (getitem_unsafe e self idx w))
             else if length (data_pairs self) = 0
               then (Inl ZeroDivisionError, snd (getitem_unsafe e self idx w))
             else getitem_loop e self (attempt + 1)
                    ((idx + 1) mod int (length (data_pairs self)))
                    (snd (getitem_unsafe e self idx w)))
      else (Inl (RuntimeError (exhausted_message idx)), w))"
  by pat_completeness auto
termination
  by (relation "measure (\<lambda>(e, self, attempt, idx, w). max_attempts - attempt)") auto

declare getitem_loop.simps [simp del]

definition getitem :: "env \<Rightarrow> dataset \<Rightarrow> int \<Rightarrow> world \<Rightarrow> (error + sample) \<times> world" where
  "getitem e self idx w = getitem_loop e self 0 idx w"

section \<open>Notions used to state the properties\<close>

text \<open>
  The sequence name of a scan path is its fourth segment from the end; the discovery
  order is the sorted result of the \<^verbatim>\<open>glob\<close> call; a discovered path survives when
  neither exclusion list holds it; the records of a sequence are the surviving paths
  with that sequence name, in discovery order.
\<close>

definition seq_name_of :: "path \<Rightarrow> string" where
  "seq_name_of p = rev (split_sep CHR ''/'' p) ! 3"

definition discovered :: "env \<Rightarrow> path \<Rightarrow> path list" where
  "discovered e root_dir = sort (glob e (path_join root_dir [''*/lidar/cam_front_center/*.npz'']))"

definition surviving :: "path list \<Rightarrow> path list \<Rightarrow> path list \<Rightarrow> path list" where
  "surviving mk mp ps = filter (\<lambda>p. p \<notin> set mk \<and> p \<notin> set mp) ps"

definition sequence_records :: "env \<Rightarrow> path \<Rightarrow> path list \<Rightarrow> path list \<Rightarrow> string \<Rightarrow> path list" where
  "sequence_records e root_dir mk mp s =
     filter (\<lambda>p. seq_name_of p = s) (surviving mk mp (discovered e root_dir))"

text \<open>The scan paths of a partition that belong to one sequence, in partition order.\<close>

definition records_of_seq :: "string \<Rightarrow> (path \<times> path) list \<Rightarrow> path list" where
  "records_of_seq s pairs = filter (\<lambda>p. seq_name_of p = s) (map fst pairs)"

text \<open>The pair the index holds for a scan path.\<close>

definition record_of :: "path \<Rightarrow> path \<Rightarrow> path \<times> path" where
  "record_of root_dir p = (p, image_path_of root_dir (seq_name_of p) p)"

text \<open>\<^verbatim>\<open>num_train_samples\<close> as a function of the group and the ratio.\<close>

definition num_train :: "real \<Rightarrow> path list \<Rightarrow> int" where
  "num_train vr g = int (length g) - py_int (real_of_int (int (length g)) * vr)"

text \<open>
  The value stored under a key of \<^verbatim>\<open>scene_dict\<close> (empty when the key is absent), and the
  invariant of the grouping loop after the surviving paths \<open>ps\<close> have been appended.
\<close>

definition vals :: "(string \<times> path list) list \<Rightarrow> string \<Rightarrow> path list" where
  "vals d s = (case map_of d s of None \<Rightarrow> [] | Some v \<Rightarrow> v)"

definition grouped :: "(string \<times> path list) list \<Rightarrow> path list \<Rightarrow> bool" where
  "grouped d ps \<longleftrightarrow>
     distinct (map fst d) \<and>
     (\<forall>s. vals d s = filter (\<lambda>p. seq_name_of p = s) ps) \<and>
     (\<forall>s \<in> fst ` set d. vals d s \<noteq> [])"

text \<open>
  The window \<^verbatim>\<open>random_crop\<close> chooses, as (top, left, height, width), and the condition
  that every point of the array projects to a pixel of the image.
\<close>

definition crop_window :: "image \<Rightarrow> nat \<times> nat \<Rightarrow> world \<Rightarrow> nat \<times> nat \<times> nat \<times> nat" where
  "crop_window img target_size w =
     (let win_top = fst (draw (height img - fst target_size) w);
          win_left = fst (draw (width img - snd target_size)
                            (snd (draw (height img - fst target_size) w)))
      in (win_top, win_left,
          min (fst target_size) (height img - win_top),
          min (snd target_size) (width img - win_left)))"

definition projects_inside :: "image \<Rightarrow> real list list \<Rightarrow> bool" where
  "projects_inside img point_cloud =
     list_all (\<lambda>p. 0 \<le> p ! 4 \<and> p ! 4 < real (height img) \<and> 0 \<le> p ! 5 \<and> p ! 5 < real (width img))
       point_cloud"

text \<open>
  The files \<open>k\<close> successive cycles open when the first one is at index \<open>idx\<close> and each
  next one at the successor index modulo the size of the active partition: the scan and
  the image of each record visited, in order.
\<close>

definition visited :: "dataset \<Rightarrow> int \<Rightarrow> nat \<Rightarrow> path list" where
  "visited self idx k =
     concat (map (\<lambda>j. [fst (data_pairs self ! nat ((idx + int j) mod int (length (data_pairs self)))),
                         snd (data_pairs self ! nat ((idx + int j) mod int (length (data_pairs self))))])
               [0..<k])"

section \<open>A small data set\<close>

text \<open>
  Ten scans of a sequence \<open>s\<close> and three scans of a sequence \<open>t\<close> under \<^verbatim>\<open>/d\<close>, listed
  out of order. The scans of \<open>t\<close> hold no point; each scan of \<open>s\<close> holds one point that
  projects to pixel \<open>(1, 1)\<close>. Every image has four rows and four columns.
\<close>

definition demo_files :: "path list" where
  "demo_files =
     [''/d/t/lidar/cam_front_center/lidar_2.npz'',
      ''/d/s/lidar/cam_front_center/lidar_09.npz'',
      ''/d/s/lidar/cam_front_center/lidar_00.npz'',
      ''/d/s/lidar/cam_front_center/lidar_01.npz'',
      ''/d/s/lidar/cam_front_center/lidar_02.npz'',
      ''/d/s/lidar/cam_front_center/lidar_03.npz'',
      ''/d/t/lidar/cam_front_center/lidar_1.npz'',
      ''/d/s/lidar/cam_front_center/lidar_04.npz'',
      ''/d/s/lidar/cam_front_center/lidar_05.npz'',
      ''/d/s/lidar/cam_front_center/lidar_06.npz'',
      ''/d/s/lidar/cam_front_center/lidar_07.npz'',
      ''/d/s/lidar/cam_front_center/lidar_08.npz'',
      ''/d/t/lidar/cam_front_center/lidar_3.npz'']"

definition demo_config :: config where
  "demo_config = [''front_center'' \<mapsto> \<lparr> intrinsic = [], distortion = [], lens = ''Fisheye'' \<rparr>]"

definition demo_scan :: "path \<Rightarrow> lidar_data" where
  "demo_scan p =
     (if p \<in> set [''/d/t/lidar/cam_front_center/lidar_1.npz'',
                    ''/d/t/lidar/cam_front_center/lidar_2.npz'',
                    ''/d/t/lidar/cam_front_center/lidar_3.npz'']
      then \<lparr> points = [], reflectance = [], row = [], col = [] \<rparr>
      else \<lparr> points = [(3, 5, 7)], reflectance = [1 / 2], row = [1], col = [1] \<rparr>)"

definition demo_image :: image where
  "demo_image = \<lparr> height = 4, width = 4, pixel_at = (\<lambda>i j. (i, j, 0)) \<rparr>"

definition demo_env :: env where
  "demo_env =
     \<lparr> glob = (\<lambda>pat. if pat = ''/d/*/lidar/cam_front_center/*.npz'' then demo_files else []),
       read_config = (\<lambda>p. if p = ''/d/cams_lidars.json'' then Inr demo_config else Inl (IOError p)),
       pickle_load = (\<lambda>p. if p = ''/d/missing_keys_files.pkl''
                            then Inr [''/d/s/lidar/cam_front_center/lidar_03.npz'']
                          else if p = ''/d/empty_point_clouds.pkl''
                            then Inr [''/d/t/lidar/cam_front_center/lidar_1.npz'']
                          else Inl (IOError p)),
       np_load = (\<lambda>p. Inr (demo_scan p)),
       imread = (\<lambda>p. Some demo_image),
       remap = (\<lambda>c img. img),
       interp = (\<lambda>img w h i j. (0, 0, 0)),
       transform_value = (\<lambda>aug img g c i j. 0),
       transform_rng = (\<lambda>aug img g. g),
       float32 = (\<lambda>x. x) \<rparr>"

definition demo_args :: init_args where
  "demo_args =
     \<lparr> arg_root_path = ''/d'', arg_config_path = ''/d/cams_lidars.json'',
       arg_missing_keys_file = ''/d/missing_keys_files.pkl'',
       arg_missing_point_clouds_file = ''/d/empty_point_clouds.pkl'',
       arg_crop_size = Some (2, 2), arg_val_ratio = 1 / 5, arg_split = ''train'',
       arg_augment = False \<rparr>"

text \<open>
  Two datasets over these files: one whose active partition is a scan without points
  followed by a scan with a point, and one whose active partition is the three scans
  without points. The random generator of \<open>demo_world\<close> always produces \<open>0\<close>.
\<close>

definition demo_ds :: dataset where
  "demo_ds =
     \<lparr> root_path = ''/d'', crop_size = Some (2, 2), config = demo_config,
       missing_keys_files = [], missing_point_clouds = [], augment = False, val_ratio = 1 / 5,
       train_data_pairs =
         [(''/d/t/lidar/cam_front_center/lidar_2.npz'', ''/d/t/camera/cam_front_center/camera_2.png''),
          (''/d/s/lidar/cam_front_center/lidar_00.npz'', ''/d/s/camera/cam_front_center/camera_00.png'')],
       val_data_pairs = [],
       data_pairs =
         [(''/d/t/lidar/cam_front_center/lidar_2.npz'', ''/d/t/camera/cam_front_center/camera_2.png''),
          (''/d/s/lidar/cam_front_center/lidar_00.npz'', ''/d/s/camera/cam_front_center/camera_00.png'')] \<rparr>"

definition empty_ds :: dataset where
  "empty_ds =
     \<lparr> root_path = ''/d'', crop_size = Some (2, 2), config = demo_config,
       missing_keys_files = [], missing_point_clouds = [], augment = False, val_ratio = 0,
       train_data_pairs =
         [(''/d/t/lidar/cam_front_center/lidar_1.npz'', ''/d/t/camera/cam_front_center/camera_1.png''),
          (''/d/t/lidar/cam_front_center/lidar_2.npz'', ''/d/t/camera/cam_front_center/camera_2.png''),
          (''/d/t/lidar/cam_front_center/lidar_3.npz'', ''/d/t/camera/cam_front_center/camera_3.png'')],
       val_data_pairs = [],
       data_pairs =
         [(''/d/t/lidar/cam_front_center/lidar_1.npz'', ''/d/t/camera/cam_front_center/camera_1.png''),
          (''/d/t/lidar/cam_front_center/lidar_2.npz'', ''/d/t/camera/cam_front_center/camera_2.png''),
          (''/d/t/lidar/cam_front_center/lidar_3.npz'', ''/d/t/camera/cam_front_center/camera_3.png'')] \<rparr>"

definition demo_world :: world where
  "demo_world = \<lparr> rng = (\<lambda>i. 0), opened = [] \<rparr>"

section \<open>The index built at construction\<close>

subsection \<open>Grouping and splitting\<close>

lemma split_sep_nonempty: "split_sep c s \<noteq> []"
  by (induction s) (auto split: list.splits)

lemma getitem_fourth_from_end:
  "4 \<le> length xs \<Longrightarrow> py_getitem xs (- 4) = Inr (rev xs ! 3)"
proof -
  assume len: "4 \<le> length xs"
  then have j: "nat (int (length xs) + - 4) = length xs - 4" by arith
  have "rev xs ! 3 = xs ! (length xs - Suc 3)"
    by (rule rev_nth) (use len in simp)
  then have "rev xs ! 3 = xs ! (length xs - 4)" by simp
  with len j show ?thesis
    by (simp add: py_getitem_def Let_def)
qed

lemma seq_name_ok:
  "4 \<le> length (split_sep CHR ''/'' p) \<Longrightarrow>
    py_getitem (split_sep CHR ''/'' p) (- 4) = Inr (seq_name_of p)"
  unfolding seq_name_of_def by (rule getitem_fourth_from_end)

lemma map_of_scene_append:
  "map_of (scene_append d s p) s' = (if s' = s then Some (vals d s @ [p]) else map_of d s')"
  by (induction d s p rule: scene_append.induct) (auto simp: vals_def)

lemma keys_scene_append:
  "map fst (scene_append d s p) = (if s \<in> fst ` set d then map fst d else map fst d @ [s])"
  by (induction d s p rule: scene_append.induct) (auto simp: image_iff)

lemma vals_scene_append:
  "vals (scene_append d s p) s' = (if s' = s then vals d s @ [p] else vals d s')"
  by (simp add: vals_def map_of_scene_append)

lemma grouped_empty: "grouped [] []"
  by (simp add: grouped_def vals_def)

lemma grouped_step:
  assumes "grouped d ps"
  shows "grouped (scene_append d (seq_name_of p) p) (ps @ [p])"
proof -
  let ?s = "seq_name_of p" and ?d = "scene_append d (seq_name_of p) p"
  have 1: "distinct (map fst ?d)"
    using assms by (auto simp: grouped_def keys_scene_append)
  have 2: "vals ?d s = filter (\<lambda>q. seq_name_of q = s) (ps @ [p])" for s
    using assms by (auto simp: grouped_def vals_scene_append)
  have 3: "vals ?d s \<noteq> []" if "s \<in> fst ` set ?d" for s
  proof (cases "s = ?s")
    case True
    then show ?thesis by (simp add: vals_scene_append)
  next
    case False
    have "s \<in> set (map fst ?d)" using that by simp
    then have "s \<in> fst ` set d"
      using False by (auto simp: keys_scene_append split: if_splits)
    with assms have "vals d s \<noteq> []" unfolding grouped_def by blast
    then show ?thesis
      using False by (simp add: vals_scene_append)
  qed
  show ?thesis unfolding grouped_def using 1 2 3 by blast
qed

lemma group_scenes_grouped:
  assumes "\<forall>p \<in> set (surviving mk mp ps). 4 \<le> length (split_sep CHR ''/'' p)"
      and "grouped d done"
  shows "\<exists>d'. group_scenes mk mp ps d = Inr d' \<and> grouped d' (done @ surviving mk mp ps)"
  using assms
proof (induction ps arbitrary: d "done")
  case Nil
  then show ?case by (simp add: surviving_def)
next
  case (Cons p ps)
  show ?case
  proof (cases "p \<in> set mk \<or> p \<in> set mp")
    case True
    then have "surviving mk mp (p # ps) = surviving mk mp ps"
      by (auto simp: surviving_def)
    with Cons True show ?thesis by auto
  next
    case False
    then have s: "surviving mk mp (p # ps) = p # surviving mk mp ps"
      by (auto simp: surviving_def)
    with Cons.prems have seg: "4 \<le> length (split_sep CHR ''/'' p)"
      and rest: "\<forall>q \<in> set (surviving mk mp ps). 4 \<le> length (split_sep CHR ''/'' q)"
      by auto
    have "grouped (scene_append d (seq_name_of p) p) (done @ [p])"
      using Cons.prems(2) by (rule grouped_step)
    from Cons.IH [OF rest this] obtain d' where
      "group_scenes mk mp ps (scene_append d (seq_name_of p) p) = Inr d'"
      "grouped d' ((done @ [p]) @ surviving mk mp ps)" by blast
    then show ?thesis
      using False s by (simp add: seq_name_ok [OF seg])
  qed
qed

lemma split_scenes_concat:
  "split_scenes vr root_dir d acc =
     (fst acc @ concat (map (\<lambda>item. fst (split_scene vr root_dir item)) d),
      snd acc @ concat (map (\<lambda>item. snd (split_scene vr root_dir item)) d))"
  by (induction d arbitrary: acc) auto

lemma fst_split_scene:
  "map fst (fst (split_scene vr root_dir item)) = slice_to (snd item) (num_train vr (snd item))"
  by (simp add: split_scene_def Let_def num_train_def comp_def)

lemma snd_split_scene:
  "map fst (snd (split_scene vr root_dir item)) = slice_from (snd item) (num_train vr (snd item))"
  by (simp add: split_scene_def Let_def num_train_def comp_def)

lemma set_slice_to: "set (slice_to xs k) \<subseteq> set xs"
  by (auto simp: slice_to_def dest: in_set_takeD)

lemma set_slice_from: "set (slice_from xs k) \<subseteq> set xs"
  by (auto simp: slice_from_def dest: in_set_dropD)

lemma slice_append: "slice_to xs k @ slice_from xs k = xs"
  by (simp add: slice_to_def slice_from_def)

lemma filter_concat_groups:
  assumes "distinct (map fst d)"
      and "\<And>item. item \<in> set d \<Longrightarrow> set (f item) \<subseteq> set (snd item)"
      and "\<And>item p. item \<in> set d \<Longrightarrow> p \<in> set (snd item) \<Longrightarrow> sq p = fst item"
  shows "filter (\<lambda>p. sq p = s) (concat (map f d)) =
           (case map_of d s of None \<Rightarrow> [] | Some g \<Rightarrow> f (s, g))"
  using assms
proof (induction d)
  case Nil
  then show ?case by simp
next
  case (Cons item d)
  obtain k g where item: "item = (k, g)" by (cases item)
  have all: "\<And>p. p \<in> set (f item) \<Longrightarrow> sq p = k"
    using Cons.prems(2)[of item] Cons.prems(3)[of item] item by auto
  have IH: "filter (\<lambda>p. sq p = s) (concat (map f d)) =
           (case map_of d s of None \<Rightarrow> [] | Some g \<Rightarrow> f (s, g))"
    using Cons by auto
  show ?case
  proof (cases "k = s")
    case True
    then have "map_of d s = None" using Cons.prems(1) item
      by (auto simp: map_of_eq_None_iff image_iff)
    moreover have "filter (\<lambda>p. sq p = s) (f item) = f item"
      using all True by (auto simp: filter_id_conv)
    ultimately show ?thesis using IH item True by simp
  next
    case False
    then have "filter (\<lambda>p. sq p = s) (f item) = []"
      using all by (auto simp: filter_empty_conv)
    then show ?thesis using IH item False by simp
  qed
qed

lemma grouped_entry:
  assumes "grouped d ps" "(k, g) \<in> set d"
  shows "g = filter (\<lambda>p. seq_name_of p = k) ps" "g \<noteq> []"
proof -
  from assms have "map_of d k = Some g" by (simp add: grouped_def)
  then have v: "vals d k = g" by (simp add: vals_def)
  from assms have "k \<in> fst ` set d" by force
  with assms(1) v show "g = filter (\<lambda>p. seq_name_of p = k) ps" "g \<noteq> []"
    unfolding grouped_def by auto
qed

lemma grouped_filter_slices:
  assumes "grouped d ps"
      and "\<And>g. set (h g) \<subseteq> set g" and "h [] = []"
  shows "filter (\<lambda>p. seq_name_of p = s) (concat (map (\<lambda>item. h (snd item)) d)) =
           h (filter (\<lambda>p. seq_name_of p = s) ps)"
proof -
  have "filter (\<lambda>p. seq_name_of p = s) (concat (map (\<lambda>item. h (snd item)) d)) =
          (case map_of d s of None \<Rightarrow> [] | Some g \<Rightarrow> h (snd (s, g)))"
  proof (rule filter_concat_groups)
    show "distinct (map fst d)" using assms(1) by (simp add: grouped_def)
    show "set (h (snd item)) \<subseteq> set (snd item)" for item by (rule assms(2))
    show "seq_name_of p = fst item" if "item \<in> set d" "p \<in> set (snd item)" for item p
    proof -
      have "(fst item, snd item) \<in> set d" using that by simp
      from grouped_entry(1) [OF assms(1) this] that(2) show ?thesis by simp
    qed
  qed
  also have "\<dots> = h (vals d s)"
    by (simp add: vals_def assms(3) split: option.splits)
  also have "vals d s = filter (\<lambda>p. seq_name_of p = s) ps"
    using assms(1) by (simp add: grouped_def)
  finally show ?thesis .
qed

lemma split_scene_records:
  assumes "\<And>p. p \<in> set (snd item) \<Longrightarrow> seq_name_of p = fst item"
  shows "fst (split_scene vr root_dir item) =
           map (record_of root_dir) (slice_to (snd item) (num_train vr (snd item)))"
    and "snd (split_scene vr root_dir item) =
           map (record_of root_dir) (slice_from (snd item) (num_train vr (snd item)))"
proof -
  have a: "image_path_of root_dir (fst item) p = image_path_of root_dir (seq_name_of p) p"
    if "p \<in> set (slice_to (snd item) k)" for p k
    using that set_slice_to [of "snd item" k] assms by auto
  have b: "image_path_of root_dir (fst item) p = image_path_of root_dir (seq_name_of p) p"
    if "p \<in> set (slice_from (snd item) k)" for p k
    using that set_slice_from [of "snd item" k] assms by auto
  show "fst (split_scene vr root_dir item) =
           map (record_of root_dir) (slice_to (snd item) (num_train vr (snd item)))"
    using a by (simp add: split_scene_def Let_def num_train_def record_of_def)
  show "snd (split_scene vr root_dir item) =
           map (record_of root_dir) (slice_from (snd item) (num_train vr (snd item)))"
    using b by (simp add: split_scene_def Let_def num_train_def record_of_def)
qed

lemma mset_from_filters:
  fixes sq :: "'a \<Rightarrow> 'b" and xs ys zs :: "'a list"
  assumes "\<And>s. filter (\<lambda>p. sq p = s) xs @ filter (\<lambda>p. sq p = s) ys = filter (\<lambda>p. sq p = s) zs"
  shows "mset xs + mset ys = mset zs"
proof (rule multiset_eqI)
  fix p
  have c: "count (mset us) p = count (mset (filter (\<lambda>q. sq q = sq p) us)) p" for us :: "'a list"
    by simp
  have "count (mset xs + mset ys) p =
          count (mset (filter (\<lambda>q. sq q = sq p) xs @ filter (\<lambda>q. sq q = sq p) ys)) p"
    by simp
  also have "\<dots> = count (mset (filter (\<lambda>q. sq q = sq p) zs)) p"
    by (simp only: assms)
  also have "\<dots> = count (mset zs) p" by simp
  finally show "count (mset xs + mset ys) p = count (mset zs) p" .
qed

lemma create_data_pairs_structure:
  assumes wf: "\<forall>p \<in> set (surviving mk mp (discovered e root_dir)). 4 \<le> length (split_sep CHR ''/'' p)"
  shows "\<exists>scene_dict tr va.
      group_scenes mk mp (discovered e root_dir) [] = Inr scene_dict \<and>
      grouped scene_dict (surviving mk mp (discovered e root_dir)) \<and>
      create_data_pairs e root_dir mk mp vr = Inr (tr, va) \<and>
      tr = map (record_of root_dir) (map fst tr) \<and>
      va = map (record_of root_dir) (map fst va) \<and>
      (\<forall>s. records_of_seq s tr =
             slice_to (sequence_records e root_dir mk mp s)
               (num_train vr (sequence_records e root_dir mk mp s))) \<and>
      (\<forall>s. records_of_seq s va =
             slice_from (sequence_records e root_dir mk mp s)
               (num_train vr (sequence_records e root_dir mk mp s)))"
proof -
  let ?ps = "surviving mk mp (discovered e root_dir)"
  from group_scenes_grouped [OF wf grouped_empty]
  obtain d where d: "group_scenes mk mp (discovered e root_dir) [] = Inr d"
    and g: "grouped d ?ps" by auto
  let ?tr = "concat (map (\<lambda>item. fst (split_scene vr root_dir item)) d)"
  let ?va = "concat (map (\<lambda>item. snd (split_scene vr root_dir item)) d)"
  have c: "create_data_pairs e root_dir mk mp vr = Inr (?tr, ?va)"
    using d by (simp add: create_data_pairs_def discovered_def split_scenes_concat)
  have key: "seq_name_of p = fst item" if "item \<in> set d" "p \<in> set (snd item)" for item p
  proof -
    have "(fst item, snd item) \<in> set d" using that by simp
    from grouped_entry(1) [OF g this] that(2) show ?thesis by simp
  qed
  have trm: "map fst ?tr = concat (map (\<lambda>item. slice_to (snd item) (num_train vr (snd item))) d)"
    by (simp add: map_concat comp_def fst_split_scene)
  have vam: "map fst ?va = concat (map (\<lambda>item. slice_from (snd item) (num_train vr (snd item))) d)"
    by (simp add: map_concat comp_def snd_split_scene)
  have tr1: "?tr = map (record_of root_dir) (map fst ?tr)"
    unfolding trm by (simp add: map_concat comp_def split_scene_records(1) key cong: map_cong)
  have va1: "?va = map (record_of root_dir) (map fst ?va)"
    unfolding vam by (simp add: map_concat comp_def split_scene_records(2) key cong: map_cong)
  have tr2: "records_of_seq s ?tr =
             slice_to (sequence_records e root_dir mk mp s)
               (num_train vr (sequence_records e root_dir mk mp s))" for s
    unfolding records_of_seq_def trm sequence_records_def
    by (rule grouped_filter_slices [OF g, where h = "\<lambda>g. slice_to g (num_train vr g)"])
       (simp_all add: set_slice_to, simp add: slice_to_def)
  have va2: "records_of_seq s ?va =
             slice_from (sequence_records e root_dir mk mp s)
               (num_train vr (sequence_records e root_dir mk mp s))" for s
    unfolding records_of_seq_def vam sequence_records_def
    by (rule grouped_filter_slices [OF g, where h = "\<lambda>g. slice_from g (num_train vr g)"])
       (simp_all add: set_slice_from, simp add: slice_from_def)
  show ?thesis using d g c tr1 va1 tr2 va2 by blast
qed

lemma partition_mset:
  assumes "\<And>s. records_of_seq s tr = slice_to (G s) (n s)"
      and "\<And>s. records_of_seq s va = slice_from (G s) (n s)"
      and "\<And>s. G s = filter (\<lambda>p. seq_name_of p = s) ps"
  shows "mset (map fst tr) + mset (map fst va) = mset ps"
proof (rule mset_from_filters [where sq = seq_name_of])
  fix s
  show "filter (\<lambda>p. seq_name_of p = s) (map fst tr) @ filter (\<lambda>p. seq_name_of p = s) (map fst va)
          = filter (\<lambda>p. seq_name_of p = s) ps"
    using assms(1)[of s] assms(2)[of s] assms(3)[of s]
    by (simp add: records_of_seq_def slice_append)
qed

lemma sorted_sequence_records: "sorted (sequence_records e root_dir mk mp s)"
  by (simp add: sequence_records_def surviving_def discovered_def sorted_wrt_filter)



lemma grouped_member:
  assumes "grouped d ps" "p \<in> set ps"
  shows "\<exists>g. (seq_name_of p, g) \<in> set d \<and> p \<in> set g"
proof -
  from assms have v: "p \<in> set (vals d (seq_name_of p))" by (simp add: grouped_def)
  show ?thesis
  proof (cases "map_of d (seq_name_of p)")
    case None
    with v show ?thesis by (simp add: vals_def)
  next
    case (Some g)
    with v have "p \<in> set g" by (simp add: vals_def)
    moreover from Some have "(seq_name_of p, g) \<in> set d" by (rule map_of_SomeD)
    ultimately show ?thesis by blast
  qed
qed

subsection \<open>Properties of the partition\<close>

lemma demo_segments:
  "\<forall>p \<in> set (surviving mk mp (discovered demo_env ''/d'')). 4 \<le> length (split_sep CHR ''/'' p)"
proof -
  have "\<forall>p \<in> set (discovered demo_env ''/d''). 4 \<le> length (split_sep CHR ''/'' p)"
    by code_simp
  then show ?thesis by (simp add: surviving_def)
qed

lemma demo_segments_all:
  "list_all (\<lambda>p. 4 \<le> length (split_sep CHR ''/'' p)) (surviving mk mp (discovered demo_env ''/d''))"
  using demo_segments [of mk mp] by (simp add: list_all_iff)


lemma demo_sequence_s: "length (sequence_records demo_env ''/d'' [] [] ''s'') = 10"
  by code_simp




text \<open>
  Claim C3. Within every sequence the records of the train partition followed by the
  records of the val partition are the records of the sequence in discovery order, which
  is the lexicographic order of the scan paths: every train record precedes every val
  record. A sequence of ten records with the ratio \<open>0.2\<close> gives its first eight records to
  the train partition and its last two to the val partition.
\<close>


theorem chronological_split:
  assumes "\<forall>p \<in> set (surviving mk mp (discovered e root_dir)). 4 \<le> length (split_sep CHR ''/'' p)"
  shows "\<exists>tr va. create_data_pairs e root_dir mk mp vr = Inr (tr, va) \<and>
     (\<forall>s. records_of_seq s tr @ records_of_seq s va = sequence_records e root_dir mk mp s) \<and>
     (\<forall>s. sorted (sequence_records e root_dir mk mp s)) \<and>
     (\<forall>s. \<forall>a \<in> set (records_of_seq s tr). \<forall>b \<in> set (records_of_seq s va). a \<le> b) \<and>
     (\<forall>s. vr = 1 / 5 \<and> length (sequence_records e root_dir mk mp s) = 10 \<longrightarrow>
          records_of_seq s tr = take 8 (sequence_records e root_dir mk mp s) \<and>
          records_of_seq s va = drop 8 (sequence_records e root_dir mk mp s) \<and>
          length (records_of_seq s tr) = 8 \<and> length (records_of_seq s va) = 2)"
proof -
  from create_data_pairs_structure [OF assms, of vr]
  obtain tr va where c: "create_data_pairs e root_dir mk mp vr = Inr (tr, va)"
    and trs: "\<And>s. records_of_seq s tr =
             slice_to (sequence_records e root_dir mk mp s)
               (num_train vr (sequence_records e root_dir mk mp s))"
    and vas: "\<And>s. records_of_seq s va =
             slice_from (sequence_records e root_dir mk mp s)
               (num_train vr (sequence_records e root_dir mk mp s))"
    by blast
  have app: "records_of_seq s tr @ records_of_seq s va = sequence_records e root_dir mk mp s" for s
    by (simp add: trs vas slice_append)
  have ord: "\<forall>a \<in> set (records_of_seq s tr). \<forall>b \<in> set (records_of_seq s va). a \<le> b" for s
  proof -
    have "sorted (records_of_seq s tr @ records_of_seq s va)"
      unfolding app by (rule sorted_sequence_records)
    then show ?thesis by (simp add: sorted_append)
  qed
  have scen: "records_of_seq s tr = take 8 (sequence_records e root_dir mk mp s) \<and>
          records_of_seq s va = drop 8 (sequence_records e root_dir mk mp s) \<and>
          length (records_of_seq s tr) = 8 \<and> length (records_of_seq s va) = 2"
    if "vr = 1 / 5" "length (sequence_records e root_dir mk mp s) = 10" for s
  proof -
    have "num_train (1 / 5) (sequence_records e root_dir mk mp s) = 8"
      using that(2) by (simp add: num_train_def py_int_def)
    then have "num_train vr (sequence_records e root_dir mk mp s) = 8"
      by (simp only: that(1))
    then show ?thesis using that(2) by (simp add: trs vas slice_to_def slice_from_def)
  qed
  show ?thesis using c app ord scen sorted_sequence_records by blast
qed

theorem chronological_split_witness:
  "list_all (\<lambda>p. 4 \<le> length (split_sep CHR ''/'' p)) (surviving [] [] (discovered demo_env ''/d'')) \<and>
   length (sequence_records demo_env ''/d'' [] [] ''s'') = 10 \<and>
   (\<exists>tr va. create_data_pairs demo_env ''/d'' [] [] (1 / 5) = Inr (tr, va) \<and>
      records_of_seq ''s'' tr @ records_of_seq ''s'' va = sequence_records demo_env ''/d'' [] [] ''s'' \<and>
      records_of_seq ''s'' tr = take 8 (sequence_records demo_env ''/d'' [] [] ''s'') \<and>
      records_of_seq ''s'' va = drop 8 (sequence_records demo_env ''/d'' [] [] ''s'') \<and>
      length (records_of_seq ''s'' tr) = 8 \<and> length (records_of_seq ''s'' va) = 2)"
  using chronological_split [OF demo_segments, of "[]" "[]" "1 / 5"]
    demo_segments_all [of "[]" "[]"] demo_sequence_s
  by blast



text \<open>
  Claim C8. A discovered scan path is absent from the index exactly when one of the two
  exclusion lists holds it. Every surviving path is stored in \<^verbatim>\<open>scene_dict\<close> under its
  sequence name, the fourth segment of the path from the end (\<^verbatim>\<open>split("/")[-4]\<close>), and
  the group of a sequence name holds the surviving paths of that name in discovery order.
\<close>


theorem exclusion_and_grouping:
  assumes "\<forall>p \<in> set (surviving mk mp (discovered e root_dir)). 4 \<le> length (split_sep CHR ''/'' p)"
  shows "\<exists>scene_dict tr va.
      group_scenes mk mp (discovered e root_dir) [] = Inr scene_dict \<and>
      create_data_pairs e root_dir mk mp vr = Inr (tr, va) \<and>
      (\<forall>p \<in> set (discovered e root_dir).
          (p \<notin> set (map fst tr) \<union> set (map fst va)) \<longleftrightarrow> (p \<in> set mk \<or> p \<in> set mp)) \<and>
      (\<forall>p \<in> set (discovered e root_dir).
          (\<forall>item \<in> set scene_dict. p \<notin> set (snd item)) \<longleftrightarrow> (p \<in> set mk \<or> p \<in> set mp)) \<and>
      distinct (map fst scene_dict) \<and>
      (\<forall>item \<in> set scene_dict.
          snd item = filter (\<lambda>p. seq_name_of p = fst item) (surviving mk mp (discovered e root_dir))
          \<and> snd item \<noteq> []) \<and>
      (\<forall>p \<in> set (surviving mk mp (discovered e root_dir)).
          py_getitem (split_sep CHR ''/'' p) (- 4) = Inr (seq_name_of p) \<and>
          (\<exists>g. (seq_name_of p, g) \<in> set scene_dict \<and> p \<in> set g))"
proof -
  let ?ps = "surviving mk mp (discovered e root_dir)"
  from create_data_pairs_structure [OF assms, of vr]
  obtain d tr va where d: "group_scenes mk mp (discovered e root_dir) [] = Inr d"
    and g: "grouped d ?ps"
    and c: "create_data_pairs e root_dir mk mp vr = Inr (tr, va)"
    and trs: "\<And>s. records_of_seq s tr =
             slice_to (sequence_records e root_dir mk mp s)
               (num_train vr (sequence_records e root_dir mk mp s))"
    and vas: "\<And>s. records_of_seq s va =
             slice_from (sequence_records e root_dir mk mp s)
               (num_train vr (sequence_records e root_dir mk mp s))"
    by blast
  have "mset (map fst tr) + mset (map fst va) = mset ?ps"
    by (rule partition_mset [OF trs vas]) (simp add: sequence_records_def)
  then have "mset (map fst tr @ map fst va) = mset ?ps" by simp
  then have "set (map fst tr @ map fst va) = set ?ps" by (rule mset_eq_setD)
  then have un: "set (map fst tr) \<union> set (map fst va) = set ?ps" by simp
  have 1: "\<forall>p \<in> set (discovered e root_dir).
          (p \<notin> set (map fst tr) \<union> set (map fst va)) \<longleftrightarrow> (p \<in> set mk \<or> p \<in> set mp)"
    unfolding un by (auto simp: surviving_def)
  have ent: "snd item = filter (\<lambda>p. seq_name_of p = fst item) ?ps \<and> snd item \<noteq> []"
    if "item \<in> set d" for item
  proof -
    have "(fst item, snd item) \<in> set d" using that by simp
    from grouped_entry [OF g this] show ?thesis by simp
  qed
  have mem: "\<exists>gr. (seq_name_of p, gr) \<in> set d \<and> p \<in> set gr" if "p \<in> set ?ps" for p
    using g that by (rule grouped_member)
  have 2: "(\<forall>item \<in> set d. p \<notin> set (snd item)) \<longleftrightarrow> (p \<in> set mk \<or> p \<in> set mp)"
    if "p \<in> set (discovered e root_dir)" for p
  proof
    assume a: "\<forall>item \<in> set d. p \<notin> set (snd item)"
    show "p \<in> set mk \<or> p \<in> set mp"
    proof (rule ccontr)
      assume "\<not> (p \<in> set mk \<or> p \<in> set mp)"
      with that have "p \<in> set ?ps" by (simp add: surviving_def)
      from mem [OF this] a show False by force
    qed
  next
    assume ex: "p \<in> set mk \<or> p \<in> set mp"
    show "\<forall>item \<in> set d. p \<notin> set (snd item)"
    proof
      fix item assume "item \<in> set d"
      from ent [OF this] have "set (snd item) \<subseteq> set ?ps" by (metis filter_is_subset)
      moreover have "p \<notin> set ?ps" using ex by (auto simp: surviving_def)
      ultimately show "p \<notin> set (snd item)" by blast
    qed
  qed
  have 3: "distinct (map fst d)" using g by (simp add: grouped_def)
  have 4: "py_getitem (split_sep CHR ''/'' p) (- 4) = Inr (seq_name_of p)" if "p \<in> set ?ps" for p
    using assms that by (simp add: seq_name_ok)
  show ?thesis
    using d c 1 2 3 ent 4 mem by (intro exI [of _ d] exI [of _ tr] exI [of _ va]) blast
qed

theorem exclusion_and_grouping_witness:
  "list_all (\<lambda>p. 4 \<le> length (split_sep CHR ''/'' p))
     (surviving [''/d/s/lidar/cam_front_center/lidar_03.npz'']
        [''/d/t/lidar/cam_front_center/lidar_1.npz''] (discovered demo_env ''/d'')) \<and>
   (\<exists>scene_dict tr va.
      group_scenes [''/d/s/lidar/cam_front_center/lidar_03.npz'']
        [''/d/t/lidar/cam_front_center/lidar_1.npz''] (discovered demo_env ''/d'') [] = Inr scene_dict \<and>
      create_data_pairs demo_env ''/d'' [''/d/s/lidar/cam_front_center/lidar_03.npz'']
        [''/d/t/lidar/cam_front_center/lidar_1.npz''] (1 / 5) = Inr (tr, va) \<and>
      ''/d/s/lidar/cam_front_center/lidar_03.npz'' \<notin> set (map fst tr) \<union> set (map fst va) \<and>
      ''/d/t/lidar/cam_front_center/lidar_1.npz'' \<notin> set (map fst tr) \<union> set (map fst va) \<and>
      ''/d/t/lidar/cam_front_center/lidar_2.npz'' \<in> set (map fst tr) \<union> set (map fst va) \<and>
      (\<exists>g. (''t'', g) \<in> set scene_dict \<and> ''/d/t/lidar/cam_front_center/lidar_2.npz'' \<in> set g))"
proof -
  let ?mk = "[''/d/s/lidar/cam_front_center/lidar_03.npz'']"
  let ?mp = "[''/d/t/lidar/cam_front_center/lidar_1.npz'']"
  from exclusion_and_grouping [OF demo_segments, of ?mk ?mp "1 / 5"]
  obtain d tr va where
    g: "group_scenes ?mk ?mp (discovered demo_env ''/d'') [] = Inr d"
    and c: "create_data_pairs demo_env ''/d'' ?mk ?mp (1 / 5) = Inr (tr, va)"
    and x: "\<forall>p \<in> set (discovered demo_env ''/d'').
          (p \<notin> set (map fst tr) \<union> set (map fst va)) \<longleftrightarrow> (p \<in> set ?mk \<or> p \<in> set ?mp)"
    and m: "\<forall>p \<in> set (surviving ?mk ?mp (discovered demo_env ''/d'')).
          py_getitem (split_sep CHR ''/'' p) (- 4) = Inr (seq_name_of p) \<and>
          (\<exists>g. (seq_name_of p, g) \<in> set d \<and> p \<in> set g)"
    by blast
  have a: "''/d/s/lidar/cam_front_center/lidar_03.npz'' \<in> set (discovered demo_env ''/d'')"
    "''/d/t/lidar/cam_front_center/lidar_1.npz'' \<in> set (discovered demo_env ''/d'')"
    "''/d/t/lidar/cam_front_center/lidar_2.npz'' \<in> set (discovered demo_env ''/d'')"
    by code_simp+
  have b: "''/d/t/lidar/cam_front_center/lidar_2.npz''
             \<in> set (surviving ?mk ?mp (discovered demo_env ''/d''))"
    by code_simp
  have s: "seq_name_of ''/d/t/lidar/cam_front_center/lidar_2.npz'' = ''t''"
    by code_simp
  have 1: "''/d/s/lidar/cam_front_center/lidar_03.npz'' \<notin> set (map fst tr) \<union> set (map fst va)"
    using x a(1) by simp
  have 2: "''/d/t/lidar/cam_front_center/lidar_1.npz'' \<notin> set (map fst tr) \<union> set (map fst va)"
    using x a(2) by simp
  have ne: "\<not> (''/d/t/lidar/cam_front_center/lidar_2.npz'' \<in> set ?mk
                \<or> ''/d/t/lidar/cam_front_center/lidar_2.npz'' \<in> set ?mp)"
    by simp
  have 3: "''/d/t/lidar/cam_front_center/lidar_2.npz'' \<in> set (map fst tr) \<union> set (map fst va)"
    using x a(3) ne by blast
  have 4: "\<exists>g. (''t'', g) \<in> set d \<and> ''/d/t/lidar/cam_front_center/lidar_2.npz'' \<in> set g"
    using m b s by force
  show ?thesis using g c 1 2 3 4 demo_segments_all [of ?mk ?mp] by blast
qed

section \<open>The constructor\<close>

lemma clamp_val_ratio_cases:
  "snd (clamp_val_ratio v) = max 0 (min v (1 / 2))"
  "v < 0 \<Longrightarrow> snd (clamp_val_ratio v) = 0"
  "1 / 2 < v \<Longrightarrow> snd (clamp_val_ratio v) = 1 / 2"
  "0 \<le> v \<Longrightarrow> v \<le> 1 / 2 \<Longrightarrow> clamp_val_ratio v = ([], v)"
  "0 \<le> snd (clamp_val_ratio v)" "snd (clamp_val_ratio v) \<le> 1 / 2"
  by (auto simp: clamp_val_ratio_def Let_def max_def min_def)



lemma init_outcome:
  "snd (init e a) =
     (case load_config e (arg_config_path a) of Inl err \<Rightarrow> Inl err | Inr cfg \<Rightarrow>
      case load_missing_keys_file e (arg_missing_keys_file a) of Inl err \<Rightarrow> Inl err | Inr mk \<Rightarrow>
      case load_missing_point_clouds_file e (arg_missing_point_clouds_file a) of
        Inl err \<Rightarrow> Inl err | Inr mp \<Rightarrow>
      case create_data_pairs e (arg_root_path a) mk mp (snd (clamp_val_ratio (arg_val_ratio a))) of
        Inl err \<Rightarrow> Inl err
      | Inr pairs \<Rightarrow>
          if arg_split a = ''train''
            then Inr \<lparr> root_path = arg_root_path a, crop_size = arg_crop_size a,
                       config = cfg, missing_keys_files = mk, missing_point_clouds = mp,
                       augment = arg_augment a,
                       val_ratio = snd (clamp_val_ratio (arg_val_ratio a)),
                       train_data_pairs = fst pairs, val_data_pairs = snd pairs,
                       data_pairs = fst pairs \<rparr>
          else if arg_split a = ''val''
            then Inr \<lparr> root_path = arg_root_path a, crop_size = arg_crop_size a,
                       config = cfg, missing_keys_files = mk, missing_point_clouds = mp,
                       augment = arg_augment a,
                       val_ratio = snd (clamp_val_ratio (arg_val_ratio a)),
                       train_data_pairs = fst pairs, val_data_pairs = snd pairs,
                       data_pairs = snd pairs \<rparr>
          else Inl (ValueError (''Invalid split value: '' @ arg_split a
                                       @ ''. Use 'train' or 'val'.'')))"
  by (simp add: init_def Let_def split: sum.splits)


lemma demo_loads:
  "load_config demo_env (arg_config_path (demo_args\<lparr>arg_split := sp, arg_val_ratio := v\<rparr>)) = Inr demo_config"
  "load_missing_keys_file demo_env (arg_missing_keys_file (demo_args\<lparr>arg_split := sp, arg_val_ratio := v\<rparr>))
     = Inr [''/d/s/lidar/cam_front_center/lidar_03.npz'']"
  "load_missing_point_clouds_file demo_env
     (arg_missing_point_clouds_file (demo_args\<lparr>arg_split := sp, arg_val_ratio := v\<rparr>))
     = Inr [''/d/t/lidar/cam_front_center/lidar_1.npz'']"
  by (simp_all add: load_config_def load_missing_keys_file_def load_missing_point_clouds_file_def
        demo_env_def demo_args_def)

lemma demo_create:
  "create_data_pairs demo_env ''/d'' [''/d/s/lidar/cam_front_center/lidar_03.npz'']
     [''/d/t/lidar/cam_front_center/lidar_1.npz''] (1 / 5) =
   Inr ([(''/d/s/lidar/cam_front_center/lidar_00.npz'', ''/d/s/camera/cam_front_center/camera_00.png''),
         (''/d/s/lidar/cam_front_center/lidar_01.npz'', ''/d/s/camera/cam_front_center/camera_01.png''),
         (''/d/s/lidar/cam_front_center/lidar_02.npz'', ''/d/s/camera/cam_front_center/camera_02.png''),
         (''/d/s/lidar/cam_front_center/lidar_04.npz'', ''/d/s/camera/cam_front_center/camera_04.png''),
         (''/d/s/lidar/cam_front_center/lidar_05.npz'', ''/d/s/camera/cam_front_center/camera_05.png''),
         (''/d/s/lidar/cam_front_center/lidar_06.npz'', ''/d/s/camera/cam_front_center/camera_06.png''),
         (''/d/s/lidar/cam_front_center/lidar_07.npz'', ''/d/s/camera/cam_front_center/camera_07.png''),
         (''/d/s/lidar/cam_front_center/lidar_08.npz'', ''/d/s/camera/cam_front_center/camera_08.png''),
         (''/d/t/lidar/cam_front_center/lidar_2.npz'', ''/d/t/camera/cam_front_center/camera_2.png''),
         (''/d/t/lidar/cam_front_center/lidar_3.npz'', ''/d/t/camera/cam_front_center/camera_3.png'')],
        [(''/d/s/lidar/cam_front_center/lidar_09.npz'', ''/d/s/camera/cam_front_center/camera_09.png'')])"
  by code_simp



text \<open>
  Claim C6. With a \<^verbatim>\<open>split\<close> other than \<^verbatim>\<open>"train"\<close> and \<^verbatim>\<open>"val"\<close> the construction
  always fails, and when the calibration, the exclusion lists and the index are built the
  failure is the \<^verbatim>\<open>ValueError\<close> of the last statement of \<^verbatim>\<open>__init__\<close> (the
  specification's ``ConfigError''). With \<^verbatim>\<open>"train"\<close> the active partition is the train
  partition and with \<^verbatim>\<open>"val"\<close> it is the val partition.
\<close>

theorem split_selects_partition:
  "(arg_split a \<noteq> ''train'' \<and> arg_split a \<noteq> ''val'' \<longrightarrow> (\<exists>err. snd (init e a) = Inl err)) \<and>
   (\<forall>ds. snd (init e a) = Inr ds \<longrightarrow>
      (arg_split a = ''train'' \<and> data_pairs ds = train_data_pairs ds) \<or>
      (arg_split a = ''val'' \<and> data_pairs ds = val_data_pairs ds)) \<and>
   (\<forall>cfg mk mp tr va.
      load_config e (arg_config_path a) = Inr cfg \<and>
      load_missing_keys_file e (arg_missing_keys_file a) = Inr mk \<and>
      load_missing_point_clouds_file e (arg_missing_point_clouds_file a) = Inr mp \<and>
      create_data_pairs e (arg_root_path a) mk mp (snd (clamp_val_ratio (arg_val_ratio a)))
        = Inr (tr, va) \<longrightarrow>
      (arg_split a = ''train'' \<longrightarrow>
         (\<exists>ds. snd (init e a) = Inr ds \<and> data_pairs ds = tr \<and>
               train_data_pairs ds = tr \<and> val_data_pairs ds = va)) \<and>
      (arg_split a = ''val'' \<longrightarrow>
         (\<exists>ds. snd (init e a) = Inr ds \<and> data_pairs ds = va \<and>
               train_data_pairs ds = tr \<and> val_data_pairs ds = va)) \<and>
      (arg_split a \<noteq> ''train'' \<and> arg_split a \<noteq> ''val'' \<longrightarrow>
         snd (init e a) = Inl (ValueError (''Invalid split value: '' @ arg_split a
                                       @ ''. Use 'train' or 'val'.''))))"
proof -
  have 1: "\<exists>err. snd (init e a) = Inl err" if "arg_split a \<noteq> ''train'' \<and> arg_split a \<noteq> ''val''"
    using that by (simp add: init_outcome split: sum.splits)
  have 2: "(arg_split a = ''train'' \<and> data_pairs ds = train_data_pairs ds) \<or>
      (arg_split a = ''val'' \<and> data_pairs ds = val_data_pairs ds)"
    if "snd (init e a) = Inr ds" for ds
    using that by (auto simp: init_outcome split: sum.splits if_splits)
  have 3: "(arg_split a = ''train'' \<longrightarrow>
         (\<exists>ds. snd (init e a) = Inr ds \<and> data_pairs ds = tr \<and>
               train_data_pairs ds = tr \<and> val_data_pairs ds = va)) \<and>
      (arg_split a = ''val'' \<longrightarrow>
         (\<exists>ds. snd (init e a) = Inr ds \<and> data_pairs ds = va \<and>
               train_data_pairs ds = tr \<and> val_data_pairs ds = va)) \<and>
      (arg_split a \<noteq> ''train'' \<and> arg_split a \<noteq> ''val'' \<longrightarrow>
         snd (init e a) = Inl (ValueError (''Invalid split value: '' @ arg_split a
                                       @ ''. Use 'train' or 'val'.'')))"
    if "load_config e (arg_config_path a) = Inr cfg \<and>
      load_missing_keys_file e (arg_missing_keys_file a) = Inr mk \<and>
      load_missing_point_clouds_file e (arg_missing_point_clouds_file a) = Inr mp \<and>
      create_data_pairs e (arg_root_path a) mk mp (snd (clamp_val_ratio (arg_val_ratio a)))
        = Inr (tr, va)" for cfg mk mp tr va
    using that by (simp add: init_outcome)
  show ?thesis
    apply (intro conjI allI)
    using 1 apply blast
    using 2 apply blast
    using 3 apply blast
    done
qed

theorem split_selects_partition_witness:
  "snd (init demo_env (demo_args\<lparr>arg_split := ''test'', arg_val_ratio := 1 / 5\<rparr>))
     = Inl (ValueError ''Invalid split value: test. Use 'train' or 'val'.'') \<and>
   (\<exists>ds. snd (init demo_env (demo_args\<lparr>arg_split := ''val'', arg_val_ratio := 1 / 5\<rparr>)) = Inr ds \<and>
      data_pairs ds = [(''/d/s/lidar/cam_front_center/lidar_09.npz'',
                        ''/d/s/camera/cam_front_center/camera_09.png'')] \<and>
      data_pairs ds = val_data_pairs ds)"
proof -
  have cl: "snd (clamp_val_ratio (1 / 5)) = 1 / 5"
    by (simp add: clamp_val_ratio_cases(4))
  have r: "arg_root_path (demo_args\<lparr>arg_split := sp, arg_val_ratio := 1 / 5\<rparr>) = ''/d''" for sp
    by (simp add: demo_args_def)
  have a: "snd (init demo_env (demo_args\<lparr>arg_split := ''test'', arg_val_ratio := 1 / 5\<rparr>))
     = Inl (ValueError ''Invalid split value: test. Use 'train' or 'val'.'')"
    using split_selects_partition [where a = "demo_args\<lparr>arg_split := ''test'', arg_val_ratio := 1 / 5\<rparr>" and e = demo_env]
      demo_loads [where sp = "''test''" and v = "1 / 5"] demo_create
    by (simp add: cl r)
  have b: "\<exists>ds. snd (init demo_env (demo_args\<lparr>arg_split := ''val'', arg_val_ratio := 1 / 5\<rparr>)) = Inr ds \<and>
      data_pairs ds = [(''/d/s/lidar/cam_front_center/lidar_09.npz'',
                        ''/d/s/camera/cam_front_center/camera_09.png'')] \<and>
      data_pairs ds = val_data_pairs ds"
    using split_selects_partition [where a = "demo_args\<lparr>arg_split := ''val'', arg_val_ratio := 1 / 5\<rparr>" and e = demo_env]
      demo_loads [where sp = "''val''" and v = "1 / 5"] demo_create
    by (auto simp: cl r)
  from a b show ?thesis by blast
qed

section \<open>Sample retrieval: cropping, one cycle, the retry loop\<close>

subsection \<open>Supporting facts\<close>

lemma opened_draw: "opened (snd (draw m w)) = opened w"
  by (simp add: draw_def)

lemma opened_random_crop: "opened (snd (random_crop img pc ts w)) = opened w"
  by (simp add: random_crop_def Let_def opened_draw)

lemma opened_crop_step: "opened (snd (crop_step self img pc w)) = opened w"
  by (simp add: crop_step_def opened_random_crop split: option.splits)

lemma opened_image_transform: "opened (snd (image_transform e a img w)) = opened w"
  by (simp add: image_transform_def)

lemma getitem_unsafe_Inr:
  assumes "fst (getitem_unsafe e self idx w) = Inr smp"
  shows "\<exists>pair ld pc rgb und res.
    py_getitem (data_pairs self) idx = Inr pair \<and>
    np_load e (fst pair) = Inr ld \<and> hstack ld = Inr pc \<and>
    cvtColor_BGR2RGB (imread e (snd pair)) = Inr rgb \<and>
    undistort_image e rgb ''front_center'' (config self) = Inr und \<and>
    cv2_resize e (fst (fst (crop_step self und pc (w\<lparr>opened := opened w @ [fst pair, snd pair]\<rparr>))))
        (224, 224) = Inr res \<and>
    smp = (fst (image_transform e (augment self) res
                 (snd (crop_step self und pc (w\<lparr>opened := opened w @ [fst pair, snd pair]\<rparr>)))),
           map (\<lambda>p. map (float32 e) (take 4 p))
             (snd (fst (crop_step self und pc (w\<lparr>opened := opened w @ [fst pair, snd pair]\<rparr>))))) \<and>
    opened (snd (getitem_unsafe e self idx w)) = opened w @ [fst pair, snd pair]"
  using assms unfolding getitem_unsafe_def Let_def
  by (auto split: sum.splits simp: opened_image_transform opened_crop_step)

lemma take4_rebase: "take 4 (rebase t l p) = take 4 p"
  by (simp add: rebase_def)

lemma random_crop_points:
  "snd (fst (random_crop img pc ts w)) =
     map (rebase (fst (crop_window img ts w)) (fst (snd (crop_window img ts w))))
       (filter (in_window (fst (crop_window img ts w)) (fst (snd (crop_window img ts w)))
                 (fst ts) (snd ts)) pc)"
  by (simp add: random_crop_def crop_window_def Let_def)

lemma crop_step_take4:
  "set (map (take 4) (snd (fst (crop_step self img pc w)))) \<subseteq> set (map (take 4) pc)"
  by (auto simp: crop_step_def random_crop_points take4_rebase split: option.splits)

lemma crop_step_length: "length (snd (fst (crop_step self img pc w))) \<le> length pc"
  by (simp add: crop_step_def random_crop_points split: option.splits)

lemma hstack_rows:
  assumes "hstack ld = Inr pc" "p \<in> set pc"
  shows "\<exists>i < length (points ld). length (reflectance ld) = length (points ld) \<and>
           p = [fst (points ld ! i), fst (snd (points ld ! i)), snd (snd (points ld ! i)),
                reflectance ld ! i, row ld ! i, col ld ! i]"
proof -
  from assms(1) have len: "length (reflectance ld) = length (points ld)"
      "length (row ld) = length (points ld)" "length (col ld) = length (points ld)"
    and pc: "pc = map (\<lambda>(xyz, r, rw, c). [fst xyz, fst (snd xyz), snd (snd xyz), r, rw, c])
                     (zip (points ld) (zip (reflectance ld) (zip (row ld) (col ld))))"
    by (auto simp: hstack_def Let_def split: if_splits)
  from assms(2) pc obtain i where
    i: "i < length (zip (points ld) (zip (reflectance ld) (zip (row ld) (col ld))))"
    and p: "p = (\<lambda>(xyz, r, rw, c). [fst xyz, fst (snd xyz), snd (snd xyz), r, rw, c])
                 (zip (points ld) (zip (reflectance ld) (zip (row ld) (col ld))) ! i)"
    by (auto simp: in_set_conv_nth)
  from i len have "i < length (points ld)" by simp
  with p len show ?thesis by (intro exI [of _ i]) simp
qed

lemma getitem_unsafe_sample:
  assumes "fst (getitem_unsafe e self idx w) = Inr smp"
  shows "channels (fst smp) = 3 \<and> rows (fst smp) = 224 \<and> cols (fst smp) = 224 \<and>
     (\<forall>q \<in> set (snd smp). length q = 4 \<and>
        (\<exists>pair \<in> set (data_pairs self). \<exists>ld i.
            np_load e (fst pair) = Inr ld \<and> i < length (points ld) \<and>
            length (reflectance ld) = length (points ld) \<and>
            q = map (float32 e)
                  [fst (points ld ! i), fst (snd (points ld ! i)), snd (snd (points ld ! i)),
                   reflectance ld ! i]))"
proof -
  from getitem_unsafe_Inr [OF assms] obtain pair ld pc rgb und res where
    pr: "py_getitem (data_pairs self) idx = Inr pair"
    and ld: "np_load e (fst pair) = Inr ld" and pc: "hstack ld = Inr pc"
    and res: "cv2_resize e (fst (fst (crop_step self und pc (w\<lparr>opened := opened w @ [fst pair, snd pair]\<rparr>))))
        (224, 224) = Inr res"
    and smp: "smp = (fst (image_transform e (augment self) res
                 (snd (crop_step self und pc (w\<lparr>opened := opened w @ [fst pair, snd pair]\<rparr>)))),
           map (\<lambda>p. map (float32 e) (take 4 p))
             (snd (fst (crop_step self und pc (w\<lparr>opened := opened w @ [fst pair, snd pair]\<rparr>)))))"
    by blast
  from res have dims: "height res = 224" "width res = 224"
    by (auto simp: cv2_resize_def split: if_splits)
  have img: "channels (fst smp) = 3 \<and> rows (fst smp) = 224 \<and> cols (fst smp) = 224"
    by (simp add: smp image_transform_def dims)
  from pr have mem: "pair \<in> set (data_pairs self)"
    by (auto simp: py_getitem_def split: if_splits)
  have pts: "length q = 4 \<and>
        (\<exists>pair \<in> set (data_pairs self). \<exists>ld i.
            np_load e (fst pair) = Inr ld \<and> i < length (points ld) \<and>
            length (reflectance ld) = length (points ld) \<and>
            q = map (float32 e)
                  [fst (points ld ! i), fst (snd (points ld ! i)), snd (snd (points ld ! i)),
                   reflectance ld ! i])" if "q \<in> set (snd smp)" for q
  proof -
    from that smp obtain p' where
      p': "p' \<in> set (snd (fst (crop_step self und pc (w\<lparr>opened := opened w @ [fst pair, snd pair]\<rparr>))))"
      and q: "q = map (float32 e) (take 4 p')" by auto
    from p' have "take 4 p' \<in> set (map (take 4) (snd (fst (crop_step self und pc (w\<lparr>opened := opened w @ [fst pair, snd pair]\<rparr>)))))"
      by simp
    with crop_step_take4 have "take 4 p' \<in> set (map (take 4) pc)" by blast
    then obtain p where p: "p \<in> set pc" and t: "take 4 p' = take 4 p" by auto
    from hstack_rows [OF pc p] obtain i where i: "i < length (points ld)"
      and l: "length (reflectance ld) = length (points ld)"
      and pe: "p = [fst (points ld ! i), fst (snd (points ld ! i)), snd (snd (points ld ! i)),
                reflectance ld ! i, row ld ! i, col ld ! i]" by blast
    have "q = map (float32 e)
                  [fst (points ld ! i), fst (snd (points ld ! i)), snd (snd (points ld ! i)),
                   reflectance ld ! i]"
      by (simp add: q t) (simp add: pe)
    with mem ld i l show ?thesis by auto
  qed
  show ?thesis using img pts by blast
qed

lemma loop_stop:
  "\<not> attempt < max_attempts \<Longrightarrow>
     getitem_loop e self attempt idx w = (Inl (RuntimeError (exhausted_message idx)), w)"
  by (subst getitem_loop.simps) simp

lemma loop_error:
  "attempt < max_attempts \<Longrightarrow> fst (getitem_unsafe e self idx w) = Inl err \<Longrightarrow>
     getitem_loop e self attempt idx w = (Inl err, snd (getitem_unsafe e self idx w))"
  by (subst getitem_loop.simps) simp

lemma loop_hit:
  "attempt < max_attempts \<Longrightarrow> fst (getitem_unsafe e self idx w) = Inr smp \<Longrightarrow>
   0 < length (snd smp) \<Longrightarrow>
     getitem_loop e self attempt idx w = (Inr smp, snd (getitem_unsafe e self idx w))"
  by (subst getitem_loop.simps) simp

lemma loop_retry:
  "attempt < max_attempts \<Longrightarrow> fst (getitem_unsafe e self idx w) = Inr smp \<Longrightarrow>
   snd smp = [] \<Longrightarrow> data_pairs self \<noteq> [] \<Longrightarrow>
     getitem_loop e self attempt idx w =
       getitem_loop e self (attempt + 1) ((idx + 1) mod int (length (data_pairs self)))
         (snd (getitem_unsafe e self idx w))"
  by (subst getitem_loop.simps) simp

lemma loop_result_origin:
  "fst (getitem_loop e self attempt idx w) = Inr smp \<Longrightarrow>
     0 < length (snd smp) \<and> (\<exists>i w0. fst (getitem_unsafe e self i w0) = Inr smp)"
proof (induction "max_attempts - attempt" arbitrary: attempt idx w)
  case 0
  then have "\<not> attempt < max_attempts" by simp
  from loop_stop [OF this] "0.prems" show ?case by simp
next
  case (Suc d)
  then have lt: "attempt < max_attempts" by simp
  show ?case
  proof (cases "fst (getitem_unsafe e self idx w)")
    case (Inl err)
    from loop_error [OF lt Inl] Suc.prems show ?thesis by simp
  next
    case (Inr s)
    show ?thesis
    proof (cases "0 < length (snd s)")
      case True
      from loop_hit [OF lt Inr True] Suc.prems have "smp = s" by simp
      with Inr True show ?thesis by blast
    next
      case False
      then have e: "snd s = []" by simp
      show ?thesis
      proof (cases "data_pairs self = []")
        case True
        then have "getitem_loop e self attempt idx w
                     = (Inl ZeroDivisionError, snd (getitem_unsafe e self idx w))"
          using lt Inr e by (subst getitem_loop.simps) simp
        with Suc.prems show ?thesis by simp
      next
        case ne: False
        have d: "d = max_attempts - (attempt + 1)" using Suc.hyps(2) by simp
        from loop_retry [OF lt Inr e ne] Suc.prems
        have "fst (getitem_loop e self (attempt + 1) ((idx + 1) mod int (length (data_pairs self)))
                (snd (getitem_unsafe e self idx w))) = Inr smp" by simp
        from Suc.hyps(1) [OF d this] show ?thesis .
      qed
    qed
  qed
qed

lemma visited_0: "visited self idx 0 = []"
  by (simp add: visited_def)

lemma visited_Suc:
  assumes "0 \<le> idx" "idx < int (length (data_pairs self))"
  shows "visited self idx (Suc k) =
           [fst (data_pairs self ! nat idx), snd (data_pairs self ! nat idx)]
             @ visited self ((idx + 1) mod int (length (data_pairs self))) k"
proof -
  let ?n = "int (length (data_pairs self))"
  let ?f = "\<lambda>i j. [fst (data_pairs self ! nat ((i + int j) mod ?n)),
                     snd (data_pairs self ! nat ((i + int j) mod ?n))]"
  have s: "?f idx (Suc j) = ?f ((idx + 1) mod ?n) j" for j
  proof -
    have "((idx + 1) mod ?n + int j) mod ?n = (idx + 1 + int j) mod ?n"
      by (rule mod_add_left_eq)
    also have "idx + 1 + int j = idx + int (Suc j)" by simp
    finally show ?thesis by simp
  qed
  have z: "?f idx 0 = [fst (data_pairs self ! nat idx), snd (data_pairs self ! nat idx)]"
    using assms by simp
  have "[0..<Suc k] = 0 # map Suc [0..<k]"
    by (simp add: upt_conv_Cons map_Suc_upt del: upt_Suc)
  then have "visited self idx (Suc k) = ?f idx 0 @ concat (map (\<lambda>j. ?f idx (Suc j)) [0..<k])"
    unfolding visited_def by (simp add: comp_def del: upt_Suc)
  also have "\<dots> = ?f idx 0 @ concat (map (?f ((idx + 1) mod ?n)) [0..<k])"
    by (simp only: s)
  finally show ?thesis unfolding z visited_def .
qed

lemma unsafe_opened:
  assumes "fst (getitem_unsafe e self idx w) = Inr smp"
      and "0 \<le> idx" "idx < int (length (data_pairs self))"
  shows "opened (snd (getitem_unsafe e self idx w)) =
           opened w @ [fst (data_pairs self ! nat idx), snd (data_pairs self ! nat idx)]"
proof -
  from getitem_unsafe_Inr [OF assms(1)] obtain pair where
    p: "py_getitem (data_pairs self) idx = Inr pair"
    and o: "opened (snd (getitem_unsafe e self idx w)) = opened w @ [fst pair, snd pair]"
    by blast
  from p assms(2,3) have "pair = data_pairs self ! nat idx"
    by (simp add: py_getitem_def)
  with o show ?thesis by simp
qed

lemma loop_dichotomy:
  assumes H: "\<forall>i w. 0 \<le> i \<and> i < int (length (data_pairs self)) \<longrightarrow>
                (\<exists>s. fst (getitem_unsafe e self i w) = Inr s)"
  shows "0 \<le> idx \<Longrightarrow> idx < int (length (data_pairs self)) \<Longrightarrow>
     (\<exists>smp k. fst (getitem_loop e self attempt idx w) = Inr smp \<and> 0 < length (snd smp) \<and>
         attempt + k < max_attempts \<and>
         opened (snd (getitem_loop e self attempt idx w)) = opened w @ visited self idx (Suc k))
     \<or> (fst (getitem_loop e self attempt idx w)
           = Inl (RuntimeError (exhausted_message
                   ((idx + int (max_attempts - attempt)) mod int (length (data_pairs self))))) \<and>
         opened (snd (getitem_loop e self attempt idx w))
           = opened w @ visited self idx (max_attempts - attempt))"
proof (induction "max_attempts - attempt" arbitrary: attempt idx w)
  case 0
  then have "\<not> attempt < max_attempts" by simp
  from loop_stop [OF this] 0 show ?case by (simp add: visited_0)
next
  case (Suc d)
  let ?n = "int (length (data_pairs self))"
  let ?w' = "snd (getitem_unsafe e self idx w)"
  let ?idx' = "(idx + 1) mod ?n"
  from Suc.hyps(2) have lt: "attempt < max_attempts" by simp
  from H Suc.prems obtain s where s: "fst (getitem_unsafe e self idx w) = Inr s" by blast
  have o: "opened ?w' = opened w @ [fst (data_pairs self ! nat idx), snd (data_pairs self ! nat idx)]"
    using s Suc.prems by (rule unsafe_opened)
  show ?case
  proof (cases "0 < length (snd s)")
    case True
    have "opened w @ visited self idx (Suc 0) = opened ?w'"
      using Suc.prems by (simp add: visited_Suc visited_0 o)
    with loop_hit [OF lt s True] True lt show ?thesis
      by (intro disjI1 exI [of _ s] exI [of _ 0]) simp
  next
    case False
    then have e: "snd s = []" by simp
    from Suc.prems have ne: "data_pairs self \<noteq> []" by auto
    have d: "d = max_attempts - (attempt + 1)" using Suc.hyps(2) by simp
    from Suc.prems have n0: "0 < ?n" by linarith
    have r: "0 \<le> ?idx'" "?idx' < ?n" using n0 by simp_all
    have eq: "getitem_loop e self attempt idx w = getitem_loop e self (attempt + 1) ?idx' ?w'"
      by (rule loop_retry [OF lt s e ne])
    have m: "max_attempts - attempt = Suc (max_attempts - (attempt + 1))" using lt by simp
    from Suc.hyps(1) [OF d r, of ?w']
    show ?thesis
    proof
      assume "\<exists>smp k. fst (getitem_loop e self (attempt + 1) ?idx' ?w') = Inr smp \<and>
         0 < length (snd smp) \<and> attempt + 1 + k < max_attempts \<and>
         opened (snd (getitem_loop e self (attempt + 1) ?idx' ?w')) = opened ?w' @ visited self ?idx' (Suc k)"
      then obtain smp k where
        a: "fst (getitem_loop e self (attempt + 1) ?idx' ?w') = Inr smp" "0 < length (snd smp)"
           "attempt + 1 + k < max_attempts"
           "opened (snd (getitem_loop e self (attempt + 1) ?idx' ?w')) = opened ?w' @ visited self ?idx' (Suc k)"
        by blast
      have "opened (snd (getitem_loop e self attempt idx w)) = opened w @ visited self idx (Suc (Suc k))"
        using a(4) Suc.prems by (simp add: eq o visited_Suc [of idx])
      moreover have "attempt + Suc k < max_attempts" using a(3) by simp
      ultimately show ?thesis using a(1,2) eq
        by (intro disjI1 exI [of _ smp] exI [of _ "Suc k"]) simp
    next
      assume b: "fst (getitem_loop e self (attempt + 1) ?idx' ?w')
           = Inl (RuntimeError (exhausted_message
                   ((?idx' + int (max_attempts - (attempt + 1))) mod ?n))) \<and>
         opened (snd (getitem_loop e self (attempt + 1) ?idx' ?w'))
           = opened ?w' @ visited self ?idx' (max_attempts - (attempt + 1))"
      have i: "(?idx' + int (max_attempts - (attempt + 1))) mod ?n
                 = (idx + int (max_attempts - attempt)) mod ?n"
      proof -
        have "(?idx' + int (max_attempts - (attempt + 1))) mod ?n
                = (idx + 1 + int (max_attempts - (attempt + 1))) mod ?n"
          by (rule mod_add_left_eq)
        also have "idx + 1 + int (max_attempts - (attempt + 1)) = idx + int (max_attempts - attempt)"
          using lt by simp
        finally show ?thesis .
      qed
      have "opened (snd (getitem_loop e self attempt idx w))
              = opened w @ visited self idx (max_attempts - attempt)"
        unfolding m using b Suc.prems by (simp add: eq o visited_Suc [of idx])
      with b i eq show ?thesis by simp
    qed
  qed
qed

lemma getitem_exhausted:
  assumes H: "\<forall>i w. 0 \<le> i \<and> i < int (length (data_pairs self)) \<longrightarrow>
                (\<exists>s. fst (getitem_unsafe e self i w) = Inr s)"
      and E: "\<forall>i w s. fst (getitem_unsafe e self i w) = Inr s \<longrightarrow> snd s = []"
      and r: "0 \<le> idx" "idx < int (length (data_pairs self))"
  shows "fst (getitem e self idx w)
           = Inl (RuntimeError (exhausted_message
                   ((idx + int max_attempts) mod int (length (data_pairs self)))))"
proof -
  from loop_dichotomy [OF H r, of 0 w]
  show ?thesis
  proof
    assume "\<exists>smp k. fst (getitem_loop e self 0 idx w) = Inr smp \<and> 0 < length (snd smp) \<and>
         0 + k < max_attempts \<and>
         opened (snd (getitem_loop e self 0 idx w)) = opened w @ visited self idx (Suc k)"
    then obtain smp where a: "fst (getitem_loop e self 0 idx w) = Inr smp" "0 < length (snd smp)"
      by blast
    from loop_result_origin [OF a(1)] E have "snd smp = []" by blast
    with a(2) show ?thesis by simp
  next
    assume "fst (getitem_loop e self 0 idx w)
           = Inl (RuntimeError (exhausted_message
                   ((idx + int (max_attempts - 0)) mod int (length (data_pairs self))))) \<and>
         opened (snd (getitem_loop e self 0 idx w))
           = opened w @ visited self idx (max_attempts - 0)"
    then show ?thesis by (simp add: getitem_def)
  qed
qed

lemma length_visited: "length (visited self idx k) = 2 * k"
  by (induction k) (simp_all add: visited_def)

lemma rebase_origin: "rebase 0 0 p = p"
  by (simp add: rebase_def)

lemma demo_hstack: "\<exists>pc. hstack (demo_scan p) = Inr pc"
  by (simp add: hstack_def demo_scan_def)

lemma demo_undistort:
  "undistort_image demo_env img ''front_center'' demo_config = Inr img"
  by (simp add: undistort_image_def demo_config_def demo_env_def)

lemma demo_unsafe_total:
  assumes "py_getitem (data_pairs self) i = Inr pair"
      and "config self = demo_config" and "crop_size self = Some (2, 2)"
  shows "\<exists>s. fst (getitem_unsafe demo_env self i w) = Inr s"
proof -
  obtain pc where pc: "hstack (demo_scan (fst pair)) = Inr pc"
    using demo_hstack by blast
  have np: "np_load demo_env (fst pair) = Inr (demo_scan (fst pair))"
    by (simp add: demo_env_def)
  have im: "imread demo_env (snd pair) = Some demo_image" by (simp add: demo_env_def)
  have cv: "cvtColor_BGR2RGB (Some demo_image)
              = Inr (demo_image\<lparr>pixel_at := \<lambda>i j. (case pixel_at demo_image i j of (b, g, r) \<Rightarrow> (r, g, b))\<rparr>)"
    by (simp add: cvtColor_BGR2RGB_def)
  let ?rgb = "demo_image\<lparr>pixel_at := \<lambda>i j. (case pixel_at demo_image i j of (b, g, r) \<Rightarrow> (r, g, b))\<rparr>"
  have ne: "height (fst (fst (random_crop ?rgb pc (2, 2) w'))) \<noteq> 0 \<and>
            width (fst (fst (random_crop ?rgb pc (2, 2) w'))) \<noteq> 0" for w'
  proof -
    have "rng w' 0 mod 3 < 3" "rng w' (Suc 0) mod 3 < 3" by simp_all
    then show ?thesis
      by (simp add: random_crop_def Let_def crop_image_def demo_image_def draw_def min_def)
  qed
  show ?thesis
    using ne unfolding getitem_unsafe_def Let_def
    by (simp add: assms np pc im cv demo_undistort crop_step_def cv2_resize_def)
qed

lemma demo_ds_total:
  "\<forall>i w0. 0 \<le> i \<and> i < int (length (data_pairs demo_ds)) \<longrightarrow>
      (\<exists>s. fst (getitem_unsafe demo_env demo_ds i w0) = Inr s)"
proof (intro allI impI)
  fix i w0
  assume "0 \<le> i \<and> i < int (length (data_pairs demo_ds))"
  then have "\<exists>pair. py_getitem (data_pairs demo_ds) i = Inr pair"
    by (simp add: py_getitem_def)
  then obtain pair where "py_getitem (data_pairs demo_ds) i = Inr pair" ..
  then show "\<exists>s. fst (getitem_unsafe demo_env demo_ds i w0) = Inr s"
    by (rule demo_unsafe_total) (simp_all add: demo_ds_def)
qed

lemma empty_ds_total:
  "\<forall>i w0. 0 \<le> i \<and> i < int (length (data_pairs empty_ds)) \<longrightarrow>
      (\<exists>s. fst (getitem_unsafe demo_env empty_ds i w0) = Inr s)"
proof (intro allI impI)
  fix i w0
  assume "0 \<le> i \<and> i < int (length (data_pairs empty_ds))"
  then have "\<exists>pair. py_getitem (data_pairs empty_ds) i = Inr pair"
    by (simp add: py_getitem_def)
  then obtain pair where "py_getitem (data_pairs empty_ds) i = Inr pair" ..
  then show "\<exists>s. fst (getitem_unsafe demo_env empty_ds i w0) = Inr s"
    by (rule demo_unsafe_total) (simp_all add: empty_ds_def)
qed

lemma empty_ds_no_points:
  "\<forall>i w0 s. fst (getitem_unsafe demo_env empty_ds i w0) = Inr s \<longrightarrow> snd s = []"
proof (intro allI impI)
  fix i w0 s
  assume a: "fst (getitem_unsafe demo_env empty_ds i w0) = Inr s"
  have none: "points ld = []"
    if "pair \<in> set (data_pairs empty_ds)" "np_load demo_env (fst pair) = Inr ld" for pair ld
    using that by (auto simp: empty_ds_def demo_env_def demo_scan_def)
  show "snd s = []"
  proof (cases "snd s")
    case Nil then show ?thesis .
  next
    case (Cons q qs)
    then have "q \<in> set (snd s)" by simp
    with getitem_unsafe_sample [OF a] obtain pair ld k where
      b: "pair \<in> set (data_pairs empty_ds)" "np_load demo_env (fst pair) = Inr ld"
      and k: "k < length (points ld)" by blast
    from none [OF b] k have False by simp
    then show ?thesis ..
  qed
qed

lemma empty_ds_size: "int (length (data_pairs empty_ds)) = 3"
  by (simp add: empty_ds_def)

lemma message_index_1:
  "exhausted_message 1 = ''Could not find a valid sample after 100 attempts starting from index 1''"
  by code_simp

lemma demo_cycle_0:
  "\<exists>img. getitem_unsafe demo_env demo_ds 0 demo_world
      = (Inr (img, []),
         \<lparr> rng = (\<lambda>i. 0),
           opened = [''/d/t/lidar/cam_front_center/lidar_2.npz'',
                     ''/d/t/camera/cam_front_center/camera_2.png''] \<rparr>)"
  unfolding getitem_unsafe_def Let_def
  by (simp add: demo_ds_def demo_world_def py_getitem_def demo_env_def demo_scan_def hstack_def
        cvtColor_BGR2RGB_def demo_image_def undistort_image_def demo_config_def crop_step_def
        random_crop_def draw_def crop_image_def cv2_resize_def image_transform_def)

lemma demo_cycle_1:
  "\<exists>img. getitem_unsafe demo_env demo_ds 1
        \<lparr> rng = (\<lambda>i. 0),
          opened = [''/d/t/lidar/cam_front_center/lidar_2.npz'',
                    ''/d/t/camera/cam_front_center/camera_2.png''] \<rparr>
      = (Inr (img, [[3, 5, 7, 1 / 2]]),
         \<lparr> rng = (\<lambda>i. 0),
           opened = [''/d/t/lidar/cam_front_center/lidar_2.npz'',
                     ''/d/t/camera/cam_front_center/camera_2.png'',
                     ''/d/s/lidar/cam_front_center/lidar_00.npz'',
                     ''/d/s/camera/cam_front_center/camera_00.png''] \<rparr>)"
  unfolding getitem_unsafe_def Let_def
  by (simp add: demo_ds_def py_getitem_def demo_env_def demo_scan_def hstack_def
        cvtColor_BGR2RGB_def demo_image_def undistort_image_def demo_config_def crop_step_def
        random_crop_def draw_def crop_image_def cv2_resize_def image_transform_def
        in_window_def rebase_def)

lemma demo_getitem:
  "\<exists>img. getitem demo_env demo_ds 0 demo_world
      = (Inr (img, [[3, 5, 7, 1 / 2]]),
         \<lparr> rng = (\<lambda>i. 0),
           opened = [''/d/t/lidar/cam_front_center/lidar_2.npz'',
                     ''/d/t/camera/cam_front_center/camera_2.png'',
                     ''/d/s/lidar/cam_front_center/lidar_00.npz'',
                     ''/d/s/camera/cam_front_center/camera_00.png''] \<rparr>)"
proof -
  let ?w1 = "\<lparr> rng = (\<lambda>i. 0::nat),
           opened = [''/d/t/lidar/cam_front_center/lidar_2.npz'',
                     ''/d/t/camera/cam_front_center/camera_2.png''] \<rparr>"
  from demo_cycle_0 obtain img0 where
    c0: "getitem_unsafe demo_env demo_ds 0 demo_world = (Inr (img0, []), ?w1)" by blast
  from demo_cycle_1 obtain img1 where
    c1: "getitem_unsafe demo_env demo_ds 1 ?w1
      = (Inr (img1, [[3, 5, 7, 1 / 2]]),
         \<lparr> rng = (\<lambda>i. 0),
           opened = [''/d/t/lidar/cam_front_center/lidar_2.npz'',
                     ''/d/t/camera/cam_front_center/camera_2.png'',
                     ''/d/s/lidar/cam_front_center/lidar_00.npz'',
                     ''/d/s/camera/cam_front_center/camera_00.png''] \<rparr>)" by blast
  have n: "data_pairs demo_ds \<noteq> []" "1 mod int (length (data_pairs demo_ds)) = 1"
    by (simp_all add: demo_ds_def)
  have "getitem_loop demo_env demo_ds 0 0 demo_world
          = getitem_loop demo_env demo_ds (0 + 1) ((0 + 1) mod int (length (data_pairs demo_ds)))
              (snd (getitem_unsafe demo_env demo_ds 0 demo_world))"
    by (rule loop_retry [where smp = "(img0, [])"]) (simp_all add: c0 n max_attempts_def)
  also have "\<dots> = getitem_loop demo_env demo_ds 1 1 ?w1"
    by (simp add: c0 n)
  also have "\<dots> = (Inr (img1, [[3, 5, 7, 1 / 2]]), snd (getitem_unsafe demo_env demo_ds 1 ?w1))"
    by (rule loop_hit) (simp_all add: c1 max_attempts_def)
  finally show ?thesis by (simp add: getitem_def c1)
qed

subsection \<open>Properties of the crop step\<close>

text \<open>
  Claim C4, as the crop step has it. The points returned by the crop step are never more
  than the points given, with or without a crop size. They are exactly the points given
  when no crop size is set, and when the crop window equals the full image and every
  point of the array projects to a pixel of that image; the image returned then has the
  dimensions of the image given.
\<close>

theorem crop_point_count:
  "length (snd (fst (crop_step self img pc w))) \<le> length pc \<and>
   length (snd (fst (random_crop img pc ts w))) \<le> length pc \<and>
   (crop_size self = None \<longrightarrow> snd (fst (crop_step self img pc w)) = pc) \<and>
   (crop_window img ts w = (0, 0, height img, width img) \<and> projects_inside img pc \<longrightarrow>
      snd (fst (random_crop img pc ts w)) = pc \<and>
      height (fst (fst (random_crop img pc ts w))) = height img \<and>
      width (fst (fst (random_crop img pc ts w))) = width img)"
proof -
  have 1: "length (snd (fst (crop_step self img pc w))) \<le> length pc"
    by (rule crop_step_length)
  have 2: "length (snd (fst (random_crop img pc ts w))) \<le> length pc"
    by (simp add: random_crop_points)
  have 3: "snd (fst (crop_step self img pc w)) = pc" if "crop_size self = None"
    using that by (simp add: crop_step_def)
  have 4: "snd (fst (random_crop img pc ts w)) = pc \<and>
      height (fst (fst (random_crop img pc ts w))) = height img \<and>
      width (fst (fst (random_crop img pc ts w))) = width img"
    if "crop_window img ts w = (0, 0, height img, width img) \<and> projects_inside img pc"
  proof -
    from that have cw: "crop_window img ts w = (0, 0, height img, width img)"
      and pi: "projects_inside img pc" by blast+
    from cw have t: "fst (draw (height img - fst ts) w) = 0"
      and l: "fst (draw (width img - snd ts) (snd (draw (height img - fst ts) w))) = 0"
      by (simp_all add: crop_window_def Let_def)
    from cw t l have h: "height img \<le> fst ts" and wd: "width img \<le> snd ts"
      by (auto simp: crop_window_def Let_def min_def split: if_splits)
    have f: "filter (in_window 0 0 (fst ts) (snd ts)) pc = pc"
      using pi h wd by (auto simp: projects_inside_def list_all_iff in_window_def filter_id_conv)
    have "map (rebase 0 0) pc = pc"
      by (rule map_idI) (rule rebase_origin)
    then have "snd (fst (random_crop img pc ts w)) = pc"
      by (simp add: random_crop_points cw f)
    moreover have "height (fst (fst (random_crop img pc ts w))) = height img"
      "width (fst (fst (random_crop img pc ts w))) = width img"
      using h wd by (simp_all add: random_crop_def Let_def draw_def crop_image_def)
    ultimately show ?thesis by blast
  qed
  from 1 2 3 4 show ?thesis by blast
qed

theorem crop_point_count_witness:
  "crop_window demo_image (4, 4) demo_world = (0, 0, height demo_image, width demo_image) \<and>
   projects_inside demo_image [[3, 5, 7, 1 / 2, 1, 1]] \<and>
   snd (fst (random_crop demo_image [[3, 5, 7, 1 / 2, 1, 1]] (4, 4) demo_world))
     = [[3, 5, 7, 1 / 2, 1, 1]]"
proof -
  have a: "crop_window demo_image (4, 4) demo_world = (0, 0, height demo_image, width demo_image)"
    by (simp add: crop_window_def Let_def draw_def demo_image_def demo_world_def)
  have b: "projects_inside demo_image [[3, 5, 7, 1 / 2, 1, 1]]"
    by (simp add: projects_inside_def demo_image_def)
  from crop_point_count [where img = demo_image and ts = "(4, 4)" and w = demo_world
      and pc = "[[3, 5, 7, 1 / 2, 1, 1]]"] a b
  show ?thesis by blast
qed

text \<open>
  Claim C4, as stated, promises equality whenever the crop window equals the full image.
  A point whose pixel coordinate lies outside the image is dropped also by that window:
  for the image of four rows and four columns, the target size \<open>(4, 4)\<close> and one point
  that projects to \<open>(7, 7)\<close>, the window is the full image and no point is returned.
\<close>

theorem full_window_drops_points:
  "crop_window demo_image (4, 4) demo_world = (0, 0, height demo_image, width demo_image) \<and>
   length (snd (fst (random_crop demo_image [[3, 5, 7, 1 / 2, 7, 7]] (4, 4) demo_world)))
     < length [[3, 5, 7, 1 / 2, 7, 7 :: real]]"
  by (simp add: crop_window_def Let_def draw_def demo_image_def demo_world_def random_crop_def
        in_window_def)

subsection \<open>Properties of the samples returned\<close>

text \<open>
  Claim C9. Every sample \<^verbatim>\<open>__getitem__\<close> returns is a tensor of three channels, 224 rows
  and 224 columns together with a list of points of exactly four numbers each: the three
  coordinates and the reflectance of one point of the scan of a record of the active
  partition, cast to 32-bit floats. The pixel row and column, columns 4 and 5 of the
  stacked array, are not among them.
\<close>

theorem sample_shape:
  assumes "fst (getitem e self idx w) = Inr smp"
  shows "channels (fst smp) = 3 \<and> rows (fst smp) = 224 \<and> cols (fst smp) = 224 \<and>
     (\<forall>q \<in> set (snd smp). length q = 4 \<and>
        (\<exists>pair \<in> set (data_pairs self). \<exists>ld i.
            np_load e (fst pair) = Inr ld \<and> i < length (points ld) \<and>
            length (reflectance ld) = length (points ld) \<and>
            q = map (float32 e)
                  [fst (points ld ! i), fst (snd (points ld ! i)), snd (snd (points ld ! i)),
                   reflectance ld ! i]))"
proof -
  from assms have "fst (getitem_loop e self 0 idx w) = Inr smp" by (simp add: getitem_def)
  from loop_result_origin [OF this] obtain i w0 where
    "fst (getitem_unsafe e self i w0) = Inr smp" by blast
  then show ?thesis by (rule getitem_unsafe_sample)
qed

theorem sample_shape_witness:
  "\<exists>smp. fst (getitem demo_env demo_ds 0 demo_world) = Inr smp \<and>
      channels (fst smp) = 3 \<and> rows (fst smp) = 224 \<and> cols (fst smp) = 224 \<and>
      list_all (\<lambda>q. length q = 4) (snd smp) \<and> snd smp = [[3, 5, 7, 1 / 2]]"
proof -
  from demo_getitem obtain img where
    g: "fst (getitem demo_env demo_ds 0 demo_world) = Inr (img, [[3, 5, 7, 1 / 2]])"
    by force
  from sample_shape [OF g] g show ?thesis by (simp add: list_all_iff)
qed

text \<open>
  Claim C1. \<^verbatim>\<open>__getitem__\<close> never returns a sample without points. For an index of the
  active partition, and as long as no decode, undistort and crop cycle on the partition
  raises (such an exception is propagated), it either returns a sample with at least one
  point after \<open>k + 1 \<le> 100\<close> cycles, or raises the \<^verbatim>\<open>RuntimeError\<close> of the loop (the
  specification's ``ExhaustedRetriesError'') after exactly \<open>max_attempts = 100\<close> cycles.
  The cycles run at the requested index and then at the successor of the current index
  modulo the size of the partition, as the files opened show.
\<close>

theorem getitem_nonempty_or_exhausted:
  "(\<forall>smp. fst (getitem e self idx w) = Inr smp \<longrightarrow> 0 < length (snd smp)) \<and>
   (0 \<le> idx \<and> idx < int (length (data_pairs self)) \<and>
    (\<forall>i w0. 0 \<le> i \<and> i < int (length (data_pairs self)) \<longrightarrow>
        (\<exists>s. fst (getitem_unsafe e self i w0) = Inr s)) \<longrightarrow>
      (\<exists>smp k. fst (getitem e self idx w) = Inr smp \<and> 0 < length (snd smp) \<and>
          k < max_attempts \<and>
          opened (snd (getitem e self idx w)) = opened w @ visited self idx (Suc k))
      \<or> ((\<exists>m. fst (getitem e self idx w) = Inl (RuntimeError m)) \<and>
          opened (snd (getitem e self idx w)) = opened w @ visited self idx max_attempts \<and>
          length (visited self idx max_attempts) = 2 * 100 \<and> max_attempts = 100))"
proof -
  have 1: "0 < length (snd smp)" if "fst (getitem e self idx w) = Inr smp" for smp
    using loop_result_origin [of e self 0 idx w smp] that by (simp add: getitem_def)
  have 2: "(\<exists>smp k. fst (getitem e self idx w) = Inr smp \<and> 0 < length (snd smp) \<and>
          k < max_attempts \<and>
          opened (snd (getitem e self idx w)) = opened w @ visited self idx (Suc k))
      \<or> ((\<exists>m. fst (getitem e self idx w) = Inl (RuntimeError m)) \<and>
          opened (snd (getitem e self idx w)) = opened w @ visited self idx max_attempts \<and>
          length (visited self idx max_attempts) = 2 * 100 \<and> max_attempts = 100)"
    if "0 \<le> idx \<and> idx < int (length (data_pairs self)) \<and>
    (\<forall>i w0. 0 \<le> i \<and> i < int (length (data_pairs self)) \<longrightarrow>
        (\<exists>s. fst (getitem_unsafe e self i w0) = Inr s))"
  proof -
    from that have H: "\<forall>i w0. 0 \<le> i \<and> i < int (length (data_pairs self)) \<longrightarrow>
        (\<exists>s. fst (getitem_unsafe e self i w0) = Inr s)"
      and r: "0 \<le> idx" "idx < int (length (data_pairs self))" by blast+
    have l: "length (visited self idx max_attempts) = 2 * 100 \<and> max_attempts = 100"
      by (simp add: length_visited max_attempts_def)
    from loop_dichotomy [OF H r, of 0 w] l show ?thesis
      unfolding getitem_def by auto
  qed
  from 1 2 show ?thesis by blast
qed

theorem getitem_nonempty_or_exhausted_witness:
  "\<exists>smp k. fst (getitem demo_env demo_ds 0 demo_world) = Inr smp \<and>
      snd smp = [[3, 5, 7, 1 / 2]] \<and> k < max_attempts \<and>
      opened (snd (getitem demo_env demo_ds 0 demo_world))
        = opened demo_world @ visited demo_ds 0 (Suc k)"
proof -
  from demo_getitem obtain img where
    g: "fst (getitem demo_env demo_ds 0 demo_world) = Inr (img, [[3, 5, 7, 1 / 2]])"
    by force
  have r: "(0::int) \<le> 0 \<and> 0 < int (length (data_pairs demo_ds))" by (simp add: demo_ds_def)
  from getitem_nonempty_or_exhausted [where e = demo_env and self = demo_ds and idx = 0
      and w = demo_world] r demo_ds_total
  have "(\<exists>smp k. fst (getitem demo_env demo_ds 0 demo_world) = Inr smp \<and> 0 < length (snd smp) \<and>
          k < max_attempts \<and>
          opened (snd (getitem demo_env demo_ds 0 demo_world))
            = opened demo_world @ visited demo_ds 0 (Suc k))
      \<or> ((\<exists>m. fst (getitem demo_env demo_ds 0 demo_world) = Inl (RuntimeError m)) \<and>
          opened (snd (getitem demo_env demo_ds 0 demo_world))
            = opened demo_world @ visited demo_ds 0 max_attempts \<and>
          length (visited demo_ds 0 max_attempts) = 2 * 100 \<and> max_attempts = 100)"
    by blast
  with g show ?thesis by auto
qed

text \<open>
  Claim C5. The message of the \<^verbatim>\<open>RuntimeError\<close> is built from \<^verbatim>\<open>idx\<close> after the loop has
  advanced it a hundred times, so it names \<open>(idx + 100) mod partition_size\<close> (lemma
  \<open>getitem_exhausted\<close>) under the words ``starting from index''. On the partition of
  three scans without points, a request for index \<open>0\<close> fails with a message that names
  index \<open>1\<close>.
\<close>

theorem exhausted_names_advanced_index:
  "fst (getitem demo_env empty_ds 0 demo_world)
     = Inl (RuntimeError ''Could not find a valid sample after 100 attempts starting from index 1'')"
proof -
  have "fst (getitem demo_env empty_ds 0 demo_world)
          = Inl (RuntimeError (exhausted_message
                   ((0 + int max_attempts) mod int (length (data_pairs empty_ds)))))"
    by (rule getitem_exhausted [OF empty_ds_total empty_ds_no_points])
       (simp_all add: empty_ds_size)
  moreover have "(0 + int max_attempts) mod int (length (data_pairs empty_ds)) = 1"
    by (simp add: empty_ds_size max_attempts_def)
  ultimately show ?thesis by (simp add: message_index_1)
qed

end
